theory Spec2Isabelle
  imports Main "HOL-Library.Word" "HOL-Library.AList"
begin

unbundle bit_operations_syntax

section \<open>Go values used by the detection pipeline\<close>

subsection \<open>Time and durations\<close>

text \<open>
  A Go \<open>time.Time\<close> is an instant together with a location. The instant is kept as
  whole seconds since the Unix epoch plus nanoseconds within the second, the location as
  its offset east of UTC in seconds. A \<open>time.Duration\<close> is a signed 64-bit count of
  nanoseconds and is kept as an \<open>int\<close>; the only arithmetic the pipeline does on it is
  \<open>Time.Sub\<close>, which saturates at the ends of the 64-bit range.
\<close>

record Time =
  unix_sec :: int
  nsec :: int
  zone_offset :: int

type_synonym Duration = int

definition maxDuration :: Duration where
  "maxDuration = 2 ^ 63 - 1"

definition minDuration :: Duration where
  "minDuration = - (2 ^ 63)"

definition Sub :: "Time \<Rightarrow> Time \<Rightarrow> Duration" where
  "Sub t u =
     (let d = (unix_sec t - unix_sec u) * 1000000000 + (nsec t - nsec u)
      in if d < minDuration then minDuration
         else if maxDuration < d then maxDuration
         else d)"

definition IsZero :: "Time \<Rightarrow> bool" where
  \<comment> \<open>January 1, year 1, 00:00:00 UTC, whatever the location\<close>
  "IsZero t \<longleftrightarrow> unix_sec t = - 62135596800 \<and> nsec t = 0"

subsection \<open>Event maps\<close>

text \<open>
  The flattened view of a telemetry record is a \<open>map[string]any\<close>. The dynamic values
  that occur in it are the results of JSON decoding (nil, booleans, float64 numbers,
  strings, lists, nested maps) and what \<open>BuildActivation\<close> and
  \<open>decodeExecutionStringLists\<close> put there (\<open>time.Time\<close> values and string lists).
  A float64 is carried as its 64-bit pattern. Maps are association lists read with
  \<open>map_of\<close>.
\<close>

datatype jvalue =
    JNil
  | JBool bool
  | JNum "64 word"
  | JStr string
  | JTime Time
  | JStrList "string list"
  | JList "jvalue list"
  | JMap "(string \<times> jvalue) list"

type_synonym event_map = "(string \<times> jvalue) list"

subsection \<open>String helpers of package strings\<close>

text \<open>\<open>strings.Split(s, ".")\<close>: the pieces between the dots; never the empty list.\<close>

fun Split_dot :: "string \<Rightarrow> string list" where
  "Split_dot [] = [[]]"
| "Split_dot (c # cs) =
     (if c = CHR ''.'' then [] # Split_dot cs
      else (case Split_dot cs of
              [] \<Rightarrow> [[c]]
            | p # ps \<Rightarrow> (c # p) # ps))"

definition HasPrefix :: "string \<Rightarrow> string \<Rightarrow> bool" where
  "HasPrefix s pre \<longleftrightarrow> take (length pre) s = pre"

definition TrimPrefix :: "string \<Rightarrow> string \<Rightarrow> string" where
  "TrimPrefix s pre = (if HasPrefix s pre then drop (length pre) s else s)"

fun Join :: "string list \<Rightarrow> string \<Rightarrow> string" where
  "Join [] sep = []"
| "Join [p] sep = p"
| "Join (p # q # ps) sep = p @ sep @ Join (q # ps) sep"

section \<open>Package events: field extraction\<close>

text \<open>
  \<open>toString\<close> returns a string value as it is and hands every other value to Go's
  formatting (\<open>String()\<close> of a Stringer, \<open>%f\<close> with trailing zeros trimmed for a
  float64, \<open>%v\<close> otherwise). The formatting is a parameter \<open>fmt\<close> of the model.
\<close>

definition toString :: "(jvalue \<Rightarrow> string) \<Rightarrow> jvalue \<Rightarrow> string" where
  "toString fmt v = (case v of JStr val \<Rightarrow> val | _ \<Rightarrow> fmt v)"

text \<open>
  The loop of \<open>ExtractField\<close> over the path segments. \<open>None\<close> is the early
  \<open>return ""\<close> taken when \<open>current\<close> is nil or is not a map; indexing a map with a key
  it does not have yields nil.
\<close>

fun walk :: "jvalue \<Rightarrow> string list \<Rightarrow> jvalue option" where
  "walk current [] = Some current"
| "walk current (part # parts) =
     (case current of
        JNil \<Rightarrow> None
      | JMap obj \<Rightarrow> walk (case map_of obj part of None \<Rightarrow> JNil | Some v \<Rightarrow> v) parts
      | _ \<Rightarrow> None)"

definition ExtractField :: "(jvalue \<Rightarrow> string) \<Rightarrow> event_map \<Rightarrow> string \<Rightarrow> string" where
  "ExtractField fmt event field =
     (case walk (JMap event) (Split_dot field) of
        None \<Rightarrow> []
      | Some JNil \<Rightarrow> []
      | Some current \<Rightarrow> toString fmt current)"

section \<open>Package rules: rule definitions\<close>

record Rule =
  ID :: string
  Title :: string
  Description :: string
  Expr :: string
  Severity :: string
  Tags :: "string list"
  Enabled :: bool
  ExtraContext :: "string list"
  IncludeEvent :: bool
  IncludeProcessTree :: bool

record CorrelationRule =
  ID :: string
  Title :: string
  Description :: string
  Expr :: string
  Window :: Duration
  GroupBy :: "string list"
  CountDistinct :: string
  Threshold :: int
  Severity :: string
  Tags :: "string list"
  Enabled :: bool

record BaselineRule =
  ID :: string
  Title :: string
  Description :: string
  Expr :: string
  Track :: "string list"
  Severity :: string
  Tags :: "string list"
  Enabled :: bool
  LearningPeriod :: Duration

section \<open>Package correlation: window membership and counting\<close>

text \<open>
  \<open>time.Parse\<close> is a parameter: \<open>parseNano\<close> stands for parsing with the layout
  \<open>time.RFC3339Nano\<close> and \<open>parse3339\<close> for the layout \<open>time.RFC3339\<close>; \<open>None\<close> is
  a parse error.
\<close>

definition withinWindow ::
  "(string \<Rightarrow> Time option) \<Rightarrow> (string \<Rightarrow> Time option) \<Rightarrow> event_map \<Rightarrow> Time \<Rightarrow> Duration \<Rightarrow> bool"
where
  "withinWindow parseNano parse3339 event now window =
     (if window = 0 then True
      else (case map_of event ''event_time'' of
              None \<Rightarrow> False
            | Some JNil \<Rightarrow> False
            | Some (JTime t) \<Rightarrow> Sub now t \<le> window
            | Some (JStr t) \<Rightarrow>
                (case parseNano t of
                   Some parsed \<Rightarrow> Sub now parsed \<le> window
                 | None \<Rightarrow>
                     (case parse3339 t of
                        Some parsed \<Rightarrow> Sub now parsed \<le> window
                      | None \<Rightarrow> False))
            | Some _ \<Rightarrow> False))"

text \<open>
  The loop of \<open>countEvents\<close> for a rule with \<open>count_distinct\<close>: \<open>seen\<close> is the set of
  values met so far, kept as a duplicate-free list.
\<close>

fun count_seen :: "(jvalue \<Rightarrow> string) \<Rightarrow> string \<Rightarrow> string list \<Rightarrow> event_map list \<Rightarrow> string list" where
  "count_seen fmt countDistinct seen [] = seen"
| "count_seen fmt countDistinct seen (evt # rest) =
     (let cleanField = TrimPrefix countDistinct ''event.'';
          val = ExtractField fmt evt cleanField
      in count_seen fmt countDistinct (if val \<noteq> [] then List.insert val seen else seen) rest)"

definition countEvents :: "(jvalue \<Rightarrow> string) \<Rightarrow> event_map list \<Rightarrow> CorrelationRule \<Rightarrow> int" where
  "countEvents fmt windowEvents rule =
     (if CountDistinct rule \<noteq> []
      then int (length (count_seen fmt (CountDistinct rule) [] windowEvents))
      else int (length windowEvents))"

section \<open>Telemetry messages\<close>

text \<open>
  The part of the \<open>SantaMessage\<close> protobuf that the pipeline reads: the common fields
  and the \<open>event\<close> oneof. A nested message that may be absent is an \<open>option\<close>; an
  absent string field reads as the empty string through its getter and is kept as the
  string itself.
\<close>

record Timestamp =
  Seconds :: int
  Nanos :: int

definition AsTime :: "Timestamp \<Rightarrow> Time" where
  \<comment> \<open>\<open>time.Unix(seconds, nanos).UTC()\<close>\<close>
  "AsTime x =
     \<lparr>unix_sec = Seconds x + Nanos x div 1000000000,
      nsec = Nanos x mod 1000000000,
      zone_offset = 0\<rparr>"

definition zeroTime :: Time where
  \<comment> \<open>\<open>time.Time{}\<close>\<close>
  "zeroTime = \<lparr>unix_sec = - 62135596800, nsec = 0, zone_offset = 0\<rparr>"

record FileInfo =
  Path :: string
  Hash :: "string option"

record ProcessInfo =
  Executable :: "FileInfo option"

record Execution =
  Target :: "ProcessInfo option"

record FileInfoLight =
  Path :: string

record FileAccess =
  Target :: "FileInfoLight option"

record XprotectDetected =
  DetectedPath :: string

record Xprotect =
  Detected :: "XprotectDetected option"

datatype santa_event =
    Event_Execution Execution
  | Event_Fork
  | Event_Exit
  | Event_Close
  | Event_Rename
  | Event_Unlink
  | Event_Link
  | Event_Exchangedata
  | Event_Disk
  | Event_Bundle
  | Event_Allowlist
  | Event_FileAccess FileAccess
  | Event_CodesigningInvalidated
  | Event_LoginWindowSession
  | Event_LoginLogout
  | Event_ScreenSharing
  | Event_OpenSsh
  | Event_Authentication
  | Event_Clone
  | Event_Copyfile
  | Event_GatekeeperOverride
  | Event_LaunchItem
  | Event_TccModification
  | Event_Xprotect Xprotect
  | Event_NotSet

record SantaMessage =
  MachineId :: string
  BootSessionUuid :: string
  EventTime :: "Timestamp option"
  ProcessedTime :: "Timestamp option"
  Event :: santa_event

fun Kind_of_event :: "santa_event \<Rightarrow> string" where
  "Kind_of_event (Event_Execution _) = ''execution''"
| "Kind_of_event Event_Fork = ''fork''"
| "Kind_of_event Event_Exit = ''exit''"
| "Kind_of_event Event_Close = ''close''"
| "Kind_of_event Event_Rename = ''rename''"
| "Kind_of_event Event_Unlink = ''unlink''"
| "Kind_of_event Event_Link = ''link''"
| "Kind_of_event Event_Exchangedata = ''exchangedata''"
| "Kind_of_event Event_Disk = ''disk''"
| "Kind_of_event Event_Bundle = ''bundle''"
| "Kind_of_event Event_Allowlist = ''allowlist''"
| "Kind_of_event (Event_FileAccess _) = ''file_access''"
| "Kind_of_event Event_CodesigningInvalidated = ''codesigning_invalidated''"
| "Kind_of_event Event_LoginWindowSession = ''login_window_session''"
| "Kind_of_event Event_LoginLogout = ''login_logout''"
| "Kind_of_event Event_ScreenSharing = ''screen_sharing''"
| "Kind_of_event Event_OpenSsh = ''open_ssh''"
| "Kind_of_event Event_Authentication = ''authentication''"
| "Kind_of_event Event_Clone = ''clone''"
| "Kind_of_event Event_Copyfile = ''copyfile''"
| "Kind_of_event Event_GatekeeperOverride = ''gatekeeper_override''"
| "Kind_of_event Event_LaunchItem = ''launch_item''"
| "Kind_of_event Event_TccModification = ''tcc_modification''"
| "Kind_of_event (Event_Xprotect _) = ''xprotect''"
| "Kind_of_event Event_NotSet = ''unknown''"

definition Kind :: "SantaMessage \<Rightarrow> string" where
  "Kind msg = Kind_of_event (Event msg)"

definition TargetSHA256 :: "SantaMessage \<Rightarrow> string" where
  "TargetSHA256 msg =
     (case Event msg of
        Event_Execution ev \<Rightarrow>
          (case Execution.Target ev of
             Some target \<Rightarrow>
               (case Executable target of
                  Some exe \<Rightarrow> (case Hash exe of Some h \<Rightarrow> h | None \<Rightarrow> [])
                | None \<Rightarrow> [])
           | None \<Rightarrow> [])
      | Event_FileAccess _ \<Rightarrow> []
      | _ \<Rightarrow> [])"

definition TargetPath :: "SantaMessage \<Rightarrow> string" where
  "TargetPath msg =
     (case Event msg of
        Event_Execution ev \<Rightarrow>
          (case Execution.Target ev of
             Some target \<Rightarrow>
               (case Executable target of
                  Some exe \<Rightarrow> FileInfo.Path exe
                | None \<Rightarrow> [])
           | None \<Rightarrow> [])
      | Event_FileAccess ev \<Rightarrow>
          (case FileAccess.Target ev of
             Some tgt \<Rightarrow> FileInfoLight.Path tgt
           | None \<Rightarrow> [])
      | Event_Xprotect ev \<Rightarrow>
          (case Detected ev of
             Some det \<Rightarrow> DetectedPath det
           | None \<Rightarrow> [])
      | _ \<Rightarrow> [])"

definition EventTime_of :: "SantaMessage \<Rightarrow> Time" where
  \<comment> \<open>\<open>events.EventTime\<close>: the event timestamp, or the zero time if missing\<close>
  "EventTime_of msg = (case EventTime msg of Some ts \<Rightarrow> AsTime ts | None \<Rightarrow> zeroTime)"

definition BuildActivation :: "SantaMessage \<Rightarrow> event_map \<Rightarrow> event_map" where
  \<comment> \<open>\<open>events.BuildActivation\<close>: the assignments to the map, in the source's order\<close>
  "BuildActivation msg eventMap =
     (let m1 = AList.update ''machine_id'' (JStr (MachineId msg)) eventMap;
          m2 = AList.update ''boot_session_uuid'' (JStr (BootSessionUuid msg)) m1;
          m3 = AList.update ''kind'' (JStr (Kind msg)) m2;
          m4 = (case EventTime msg of
                  Some ts \<Rightarrow> AList.update ''event_time'' (JTime (AsTime ts)) m3
                | None \<Rightarrow> m3);
          m5 = (case ProcessedTime msg of
                  Some pt \<Rightarrow> AList.update ''processed_time'' (JTime (AsTime pt)) m4
                | None \<Rightarrow> m4)
      in m5)"

text \<open>
  What lies outside the repository is a parameter of the model: Go's value formatting,
  \<open>time.Parse\<close> with the two layouts, the protobuf-to-JSON conversion behind
  \<open>events.ToMap\<close> (\<open>Inl\<close> is its error), and the wall clock. \<open>clock i\<close> is the reading
  that the \<open>i\<close>-th iteration of a rule loop takes with \<open>time.Now()\<close>.
\<close>

datatype map_error = MarshalError

record Externals =
  fmt :: "jvalue \<Rightarrow> string"
  parseNano :: "string \<Rightarrow> Time option"
  parse3339 :: "string \<Rightarrow> Time option"
  ToMap :: "SantaMessage \<Rightarrow> map_error + event_map"
  clock :: "nat \<Rightarrow> Time"

text \<open>The compiled CEL program of a rule, as the function it evaluates on a message.\<close>

datatype eval_result = EvalError | NonBool | BoolVal bool

record CompiledCorrelation =
  Rule :: CorrelationRule
  Program :: "SantaMessage \<Rightarrow> eval_result"

record CompiledBaseline =
  Rule :: BaselineRule
  Program :: "SantaMessage \<Rightarrow> eval_result"

section \<open>The state store\<close>

text \<open>
  Modelled from the spec: package \<open>state\<close> (the \<open>DB\<close> type with
  \<open>StoreWindowEvent\<close>, \<open>GetWindowEvents\<close>, \<open>ReplaceWindowEvents\<close> and
  \<open>IsFirstSeen\<close>) is not among the sources. The spec describes buckets
  \<open>windows/<rule_id>/<group_key>\<close> holding an ordered event list, into which a minimal
  copy of the event is persisted, and which \<open>replace_window_events\<close> overwrites or, given
  nil, clears; and first-seen keys \<open>(rule_id, pattern)\<close> with an atomic test-and-set that
  returns true only on the insertion, capped by a bounded LRU at \<open>max_entries\<close> keys.
  A failing operation surfaces as a storage error; the store is \<open>healthy\<close> when its
  operations succeed. \<open>minimal\<close> is the copy of an event that the store keeps.
\<close>

datatype storage_error = StorageError

record DB =
  windows :: "string \<times> string \<Rightarrow> event_map list option"
  first_seen :: "(string \<times> string) list"
  max_entries :: nat
  minimal :: "event_map \<Rightarrow> event_map"
  healthy :: bool




definition IsFirstSeen :: "DB \<Rightarrow> string \<Rightarrow> string \<Rightarrow> storage_error + (bool \<times> DB)" where
  "IsFirstSeen db ruleID pattern =
     (if \<not> healthy db then Inl StorageError
      else if (ruleID, pattern) \<in> set (first_seen db)
      then Inr (False, db\<lparr>first_seen := (ruleID, pattern) # removeAll (ruleID, pattern) (first_seen db)\<rparr>)
      else Inr (True, db\<lparr>first_seen := take (max_entries db) ((ruleID, pattern) # first_seen db)\<rparr>))"

section \<open>Package correlation: the window manager\<close>


record WindowMatch =
  RuleID :: string
  Title :: string
  Severity :: string
  Tags :: "string list"
  Description :: string
  Count :: int
  Events :: "event_map list"
  GroupKey :: string
  Rule :: CorrelationRule








section \<open>Package baseline: the first-seen processor\<close>

record Engine =
  startTime :: Time

definition IsInLearningPeriod :: "Engine \<Rightarrow> Time \<Rightarrow> BaselineRule \<Rightarrow> bool" where
  \<comment> \<open>\<open>now\<close> is the reading of \<open>time.Since\<close>\<close>
  "IsInLearningPeriod e now baseline =
     (if LearningPeriod baseline = 0 then False
      else Sub now (startTime e) < LearningPeriod baseline)"

record BaselineMatch =
  RuleID :: string
  Title :: string
  Severity :: string
  Tags :: "string list"
  Description :: string
  Pattern :: string
  Message :: SantaMessage
  Timestamp :: Time
  InLearning :: bool

datatype baseline_error =
    BaselineFailedToConvert map_error
  | FailedToCheckFirstSeen string storage_error

definition extractPattern :: "(jvalue \<Rightarrow> string) \<Rightarrow> event_map \<Rightarrow> string list \<Rightarrow> string" where
  "extractPattern fm event trackFields =
     Join (map (\<lambda>field.
              let cleanField = TrimPrefix field ''event.''
              in cleanField @ ''='' @ ExtractField fm event cleanField) trackFields) ''|''"

definition mkBaselineMatch :: "BaselineRule \<Rightarrow> string \<Rightarrow> SantaMessage \<Rightarrow> bool \<Rightarrow> BaselineMatch" where
  "mkBaselineMatch rule pattern msg inLearning =
     \<lparr>BaselineMatch.RuleID = BaselineRule.ID rule,
      Title = BaselineRule.Title rule,
      Severity = BaselineRule.Severity rule,
      Tags = BaselineRule.Tags rule,
      Description = BaselineRule.Description rule,
      Pattern = pattern,
      Message = msg,
      Timestamp = EventTime_of msg,
      InLearning = inLearning\<rparr>"

fun baselineRules ::
  "Externals \<Rightarrow> Engine \<Rightarrow> SantaMessage \<Rightarrow> nat \<Rightarrow> CompiledBaseline list
   \<Rightarrow> DB \<Rightarrow> BaselineMatch list \<Rightarrow> baseline_error + (BaselineMatch list \<times> DB)"
where
  "baselineRules ext engine msg i [] db matches = Inr (matches, db)"
| "baselineRules ext engine msg i (baseline # rest) db matches =
     (case CompiledBaseline.Program baseline msg of
        EvalError \<Rightarrow> baselineRules ext engine msg (Suc i) rest db matches
      | NonBool \<Rightarrow> baselineRules ext engine msg (Suc i) rest db matches
      | BoolVal matched \<Rightarrow>
          if \<not> matched then baselineRules ext engine msg (Suc i) rest db matches
          else (case ToMap ext msg of
                  Inl err \<Rightarrow> Inl (BaselineFailedToConvert err)
                | Inr m \<Rightarrow>
                    (let eventMap = BuildActivation msg m;
                         rule = CompiledBaseline.Rule baseline;
                         pattern = extractPattern (fmt ext) eventMap (Track rule)
                     in case IsFirstSeen db (BaselineRule.ID rule) pattern of
                          Inl err \<Rightarrow> Inl (FailedToCheckFirstSeen (BaselineRule.ID rule) err)
                        | Inr (isFirst, db') \<Rightarrow>
                            if isFirst
                            then baselineRules ext engine msg (Suc i) rest db'
                                   (matches @ [mkBaselineMatch rule pattern msg
                                      (IsInLearningPeriod engine (clock ext i) rule)])
                            else baselineRules ext engine msg (Suc i) rest db' matches)))"

definition ProcessBaselines ::
  "Externals \<Rightarrow> Engine \<Rightarrow> SantaMessage \<Rightarrow> CompiledBaseline list \<Rightarrow> DB
   \<Rightarrow> baseline_error + (BaselineMatch list \<times> DB)"
where
  \<comment> \<open>\<open>Processor.Process\<close> of package baseline\<close>
  "ProcessBaselines ext engine msg baselines db =
     (if baselines = [] then Inr ([], db)
      else baselineRules ext engine msg 0 baselines db [])"

section \<open>Package lineage: the process-lineage cache\<close>

record Key =
  BootUUID :: string
  Pid :: "32 word"
  PidVersion :: "32 word"

definition Key_IsZero :: "Key \<Rightarrow> bool" where
  "Key_IsZero k \<longleftrightarrow> BootUUID k = [] \<and> Pid k = 0 \<and> PidVersion k = 0"

record Node =
  Key :: Key
  Parent :: Key
  Responsible :: Key
  Path :: string
  User :: string
  UID :: "32 word"
  Group :: string
  GID :: "32 word"
  SessionID :: "32 word"
  Args :: "string list"
  StartTime :: Time
  CreatedAt :: Time

text \<open>The map \<open>nodes\<close> of the store is an association list read with \<open>map_of\<close>.\<close>

record Store =
  nodes :: "(Key \<times> Node) list"
  maxEntries :: int
  ttl :: Duration

text \<open>
  The loop of \<open>Store.Lineage\<close>: \<open>current\<close> is the node pointer (\<open>None\<close> is nil),
  \<open>chain\<close> the slice built so far and \<open>seen\<close> the keys of the seen-set.
\<close>

function lineageLoop ::
  "(Key \<Rightarrow> Node option) \<Rightarrow> int \<Rightarrow> Node list \<Rightarrow> Key list \<Rightarrow> Node option \<Rightarrow> Node list"
where
  "lineageLoop nds maxDepth chain seen current =
     (case current of
        None \<Rightarrow> chain
      | Some cur \<Rightarrow>
          if \<not> int (length chain) < maxDepth then chain
          else if Key_IsZero (Parent cur) then chain @ [cur]
          else (case nds (Parent cur) of
                  None \<Rightarrow> chain @ [cur]
                | Some next \<Rightarrow>
                    if Node.Key next \<in> set (Node.Key cur # seen) then chain @ [cur]
                    else lineageLoop nds maxDepth (chain @ [cur]) (Node.Key cur # seen) (Some next)))"
  by pat_completeness auto
termination
  by (relation "measure (\<lambda>(nds, maxDepth, chain, seen, current). nat (maxDepth - int (length chain)))") auto

definition Lineage :: "Store \<Rightarrow> Key \<Rightarrow> int \<Rightarrow> Node list" where
  "Lineage s key maxDepth =
     (let maxDepth' = (if maxDepth \<le> 0 then 8 else maxDepth)
      in if nodes s = [] then []
         else lineageLoop (map_of (nodes s)) maxDepth' [] [] (map_of (nodes s) key))"

section \<open>Package rules: loading and validation\<close>

definition ValidSeverities :: "string \<Rightarrow> bool" where
  "ValidSeverities s \<longleftrightarrow> s \<in> {''low'', ''medium'', ''high'', ''critical''}"

datatype validation_error =
    ErrRequired string
  | ErrInvalidSeverity string
  | ErrInvalidField string nat
  | ErrThresholdNotPositive

text \<open>The index of the first empty string of a field list, as the range loops find it.\<close>

fun firstEmpty :: "nat \<Rightarrow> string list \<Rightarrow> nat option" where
  "firstEmpty i [] = None"
| "firstEmpty i (field # rest) = (if field = [] then Some i else firstEmpty (Suc i) rest)"

definition Rule_Validate :: "Rule \<Rightarrow> validation_error option" where
  "Rule_Validate r =
     (if Rule.ID r = [] then Some (ErrRequired ''rule ID'')
      else if Rule.Title r = [] then Some (ErrRequired ''rule title'')
      else if Rule.Expr r = [] then Some (ErrRequired ''rule expression'')
      else if Rule.Severity r = [] then Some (ErrRequired ''rule severity'')
      else if \<not> ValidSeverities (Rule.Severity r) then Some (ErrInvalidSeverity (Rule.Severity r))
      else None)"

definition CorrelationRule_Validate :: "CorrelationRule \<Rightarrow> validation_error option" where
  "CorrelationRule_Validate cr =
     (if CorrelationRule.ID cr = [] then Some (ErrRequired ''correlation ID'')
      else if CorrelationRule.Title cr = [] then Some (ErrRequired ''correlation title'')
      else if CorrelationRule.Expr cr = [] then Some (ErrRequired ''correlation expression'')
      else if Window cr = 0 then Some (ErrRequired ''correlation window'')
      else if Threshold cr \<le> 0 then Some ErrThresholdNotPositive
      else if CorrelationRule.Severity cr = [] then Some (ErrRequired ''correlation severity'')
      else if \<not> ValidSeverities (CorrelationRule.Severity cr)
           then Some (ErrInvalidSeverity (CorrelationRule.Severity cr))
      else (case firstEmpty 0 (GroupBy cr) of
              Some i \<Rightarrow> Some (ErrInvalidField ''group_by'' i)
            | None \<Rightarrow> None))"

definition BaselineRule_Validate :: "BaselineRule \<Rightarrow> validation_error option" where
  "BaselineRule_Validate br =
     (if BaselineRule.ID br = [] then Some (ErrRequired ''baseline ID'')
      else if BaselineRule.Title br = [] then Some (ErrRequired ''baseline title'')
      else if BaselineRule.Expr br = [] then Some (ErrRequired ''baseline expression'')
      else if Track br = [] then Some (ErrRequired ''baseline track fields (at least one required)'')
      else if BaselineRule.Severity br = [] then Some (ErrRequired ''baseline severity'')
      else if \<not> ValidSeverities (BaselineRule.Severity br)
           then Some (ErrInvalidSeverity (BaselineRule.Severity br))
      else (case firstEmpty 0 (Track br) of
              Some i \<Rightarrow> Some (ErrInvalidField ''track'' i)
            | None \<Rightarrow> None))"

record RulesConfig =
  Rules :: "Rule list"
  Correlations :: "CorrelationRule list"
  Baselines :: "BaselineRule list"

datatype rule_section = InRules | InCorrelations | InBaselines

text \<open>
  The errors of the loader, one constructor for each message the source formats. The
  duplicate found while walking a directory carries the section, the ID and the two files
  of its message \<open>duplicate ... ID %s: found in both %s and %s\<close>.
\<close>

datatype load_error =
    FailedToStat
  | NotADirectory string
  | WalkError string
  | FailedToRead string
  | FailedToParse string
  | DuplicateFoundInBoth rule_section string string string
  | DuplicateRuleID string
  | ErrDuplicateIDConflict string
  | InvalidRule string validation_error
  | InvalidCorrelationRule string validation_error
  | InvalidBaselineRule string validation_error
  | InvalidRulesConfiguration load_error
  | InvalidMergedRulesConfiguration load_error

text \<open>The three loops of \<open>RulesConfig.Validate\<close>; \<open>seen\<close> holds the IDs marked so far.\<close>

fun validateRules :: "string list \<Rightarrow> Rule list \<Rightarrow> load_error + string list" where
  "validateRules seen [] = Inr seen"
| "validateRules seen (rule # rest) =
     (if Rule.ID rule \<in> set seen then Inl (DuplicateRuleID (Rule.ID rule))
      else (case Rule_Validate rule of
              Some err \<Rightarrow> Inl (InvalidRule (Rule.ID rule) err)
            | None \<Rightarrow> validateRules (Rule.ID rule # seen) rest))"

fun validateCorrelations :: "string list \<Rightarrow> CorrelationRule list \<Rightarrow> load_error + string list" where
  "validateCorrelations seen [] = Inr seen"
| "validateCorrelations seen (corr # rest) =
     (if CorrelationRule.ID corr \<in> set seen then Inl (ErrDuplicateIDConflict (CorrelationRule.ID corr))
      else (case CorrelationRule_Validate corr of
              Some err \<Rightarrow> Inl (InvalidCorrelationRule (CorrelationRule.ID corr) err)
            | None \<Rightarrow> validateCorrelations (CorrelationRule.ID corr # seen) rest))"

fun validateBaselines :: "string list \<Rightarrow> BaselineRule list \<Rightarrow> load_error + string list" where
  "validateBaselines seen [] = Inr seen"
| "validateBaselines seen (baseline # rest) =
     (if BaselineRule.ID baseline \<in> set seen then Inl (ErrDuplicateIDConflict (BaselineRule.ID baseline))
      else (case BaselineRule_Validate baseline of
              Some err \<Rightarrow> Inl (InvalidBaselineRule (BaselineRule.ID baseline) err)
            | None \<Rightarrow> validateBaselines (BaselineRule.ID baseline # seen) rest))"

definition Validate :: "RulesConfig \<Rightarrow> load_error option" where
  "Validate rc =
     (case validateRules [] (Rules rc) of
        Inl err \<Rightarrow> Some err
      | Inr seen1 \<Rightarrow>
          (case validateCorrelations seen1 (Correlations rc) of
             Inl err \<Rightarrow> Some err
           | Inr seen2 \<Rightarrow>
               (case validateBaselines seen2 (Baselines rc) of
                  Inl err \<Rightarrow> Some err
                | Inr seen3 \<Rightarrow> None)))"

text \<open>
  The file system as the loader sees it: the outcome of \<open>os.Stat\<close> on a path, the entries
  that \<open>filepath.WalkDir\<close> hands to its callback, in order, and for a file the outcome of
  reading it and decoding its YAML.
\<close>

datatype stat_result = StatFailed | StatFile | StatDir

datatype file_content = Unreadable | Malformed | Parsed RulesConfig

record DirEntry =
  entryPath :: string
  entryIsDir :: bool
  entryErr :: bool

record FileSystem =
  stat :: "string \<Rightarrow> stat_result"
  walkDir :: "string \<Rightarrow> DirEntry list"
  readFile :: "string \<Rightarrow> file_content"

text \<open>
  \<open>filepath.Ext\<close> scans from the end of the path to the last separator for a dot.
  \<open>strings.ToLower\<close> is modelled on ASCII letters, which decides the comparison with
  \<open>.yaml\<close> and \<open>.yml\<close>.
\<close>

fun extScan :: "string \<Rightarrow> string \<Rightarrow> string" where
  "extScan [] acc = []"
| "extScan (c # cs) acc =
     (if c = CHR ''/'' then []
      else if c = CHR ''.'' then c # acc
      else extScan cs (c # acc))"

definition Ext :: "string \<Rightarrow> string" where
  "Ext path = extScan (rev path) []"

definition ToLower :: "string \<Rightarrow> string" where
  "ToLower s =
     map (\<lambda>c. if (65::nat) \<le> of_char c \<and> (of_char c :: nat) \<le> 90
               then char_of (of_char c + (32::nat)) else c) s"

definition LoadRulesFile :: "FileSystem \<Rightarrow> string \<Rightarrow> load_error + RulesConfig" where
  "LoadRulesFile fs path =
     (case readFile fs path of
        Unreadable \<Rightarrow> Inl (FailedToRead path)
      | Malformed \<Rightarrow> Inl (FailedToParse path)
      | Parsed config \<Rightarrow>
          (case Validate config of
             Some err \<Rightarrow> Inl (InvalidRulesConfiguration err)
           | None \<Rightarrow> Inr config))"

text \<open>One of the three duplicate checks that the walk makes for a file before merging it.\<close>

fun checkIDs ::
  "rule_section \<Rightarrow> string \<Rightarrow> string list \<Rightarrow> (string \<times> string) list
   \<Rightarrow> load_error + (string \<times> string) list"
where
  "checkIDs sec path [] idToFile = Inr idToFile"
| "checkIDs sec path (i # ids) idToFile =
     (case map_of idToFile i of
        Some existingFile \<Rightarrow> Inl (DuplicateFoundInBoth sec i existingFile path)
      | None \<Rightarrow> checkIDs sec path ids (AList.update i path idToFile))"

definition Merge :: "RulesConfig \<Rightarrow> RulesConfig \<Rightarrow> RulesConfig" where
  "Merge rc other =
     \<lparr>Rules = Rules rc @ Rules other,
      Correlations = Correlations rc @ Correlations other,
      Baselines = Baselines rc @ Baselines other\<rparr>"

text \<open>The callback of the walk, applied to the entries in order; an error ends the walk.\<close>

fun walkEntries ::
  "FileSystem \<Rightarrow> DirEntry list \<Rightarrow> (string \<times> string) list \<Rightarrow> RulesConfig \<Rightarrow> load_error + RulesConfig"
where
  "walkEntries fs [] idToFile merged = Inr merged"
| "walkEntries fs (d # ds) idToFile merged =
     (if entryErr d then Inl (WalkError (entryPath d))
      else if entryIsDir d then walkEntries fs ds idToFile merged
      else if ToLower (Ext (entryPath d)) \<noteq> ''.yaml'' \<and> ToLower (Ext (entryPath d)) \<noteq> ''.yml''
      then walkEntries fs ds idToFile merged
      else (case readFile fs (entryPath d) of
              Unreadable \<Rightarrow> Inl (FailedToRead (entryPath d))
            | Malformed \<Rightarrow> Inl (FailedToParse (entryPath d))
            | Parsed config \<Rightarrow>
                (case checkIDs InRules (entryPath d) (map Rule.ID (Rules config)) idToFile of
                   Inl err \<Rightarrow> Inl err
                 | Inr m1 \<Rightarrow>
                     (case checkIDs InCorrelations (entryPath d)
                             (map CorrelationRule.ID (Correlations config)) m1 of
                        Inl err \<Rightarrow> Inl err
                      | Inr m2 \<Rightarrow>
                          (case checkIDs InBaselines (entryPath d)
                                  (map BaselineRule.ID (Baselines config)) m2 of
                             Inl err \<Rightarrow> Inl err
                           | Inr m3 \<Rightarrow> walkEntries fs ds m3 (Merge merged config))))))"

definition LoadRulesDir :: "FileSystem \<Rightarrow> string \<Rightarrow> load_error + RulesConfig" where
  "LoadRulesDir fs dirPath =
     (case stat fs dirPath of
        StatFailed \<Rightarrow> Inl FailedToStat
      | StatFile \<Rightarrow> Inl (NotADirectory dirPath)
      | StatDir \<Rightarrow>
          (case walkEntries fs (walkDir fs dirPath) []
                  \<lparr>Rules = [], Correlations = [], Baselines = []\<rparr> of
             Inl err \<Rightarrow> Inl err
           | Inr merged \<Rightarrow>
               (case Validate merged of
                  Some err \<Rightarrow> Inl (InvalidMergedRulesConfiguration err)
                | None \<Rightarrow> Inr merged)))"

definition Load :: "FileSystem \<Rightarrow> string \<Rightarrow> load_error + RulesConfig" where
  "Load fs path =
     (case stat fs path of
        StatFailed \<Rightarrow> Inl FailedToStat
      | StatDir \<Rightarrow> LoadRulesDir fs path
      | StatFile \<Rightarrow> LoadRulesFile fs path)"

section \<open>Formatting a time with the layout RFC3339\<close>

text \<open>
  \<open>ts.Format(time.RFC3339)\<close> with the layout \<open>2006-01-02T15:04:05Z07:00\<close>: the civil
  date and the time of day of the instant in its location, to the second, followed by
  \<open>Z\<close> for a zero offset and by the signed offset in hours and minutes otherwise. The
  layout has no field for the fraction of the second.
\<close>

function decimal :: "nat \<Rightarrow> string" where
  "decimal n = (if n < 10 then [char_of (48 + n)] else decimal (n div 10) @ [char_of (48 + n mod 10)])"
  by pat_completeness auto
termination
  by (relation "measure id") auto

definition appendInt :: "int \<Rightarrow> nat \<Rightarrow> string" where
  \<comment> \<open>a sign for a negative number, then at least \<open>width\<close> digits\<close>
  "appendInt x width =
     (let ds = decimal (nat \<bar>x\<bar>)
      in (if x < 0 then ''-'' else []) @ replicate (width - length ds) (CHR ''0'') @ ds)"

definition civil :: "int \<Rightarrow> int \<times> int \<times> int" where
  \<comment> \<open>year, month and day of the proleptic Gregorian calendar for a day count from 1970-01-01\<close>
  "civil days =
     (let z = days + 719468;
          era = z div 146097;
          doe = z mod 146097;
          yoe = (doe - doe div 1460 + doe div 36524 - doe div 146096) div 365;
          doy = doe - (365 * yoe + yoe div 4 - yoe div 100);
          mp = (5 * doy + 2) div 153;
          d = doy - (153 * mp + 2) div 5 + 1;
          m = (if mp < 10 then mp + 3 else mp - 9);
          y = yoe + era * 400 + (if m \<le> 2 then 1 else 0)
      in (y, m, d))"

definition formatZone :: "int \<Rightarrow> string" where
  "formatZone offset =
     (if offset = 0 then ''Z''
      else (let zone = \<bar>offset\<bar> div 60
            in (if offset < 0 \<and> zone \<noteq> 0 then ''-'' else ''+'')
               @ appendInt (zone div 60) 2 @ '':'' @ appendInt (zone mod 60) 2))"

definition Format_RFC3339 :: "Time \<Rightarrow> string" where
  "Format_RFC3339 t =
     (let abs = unix_sec t + zone_offset t;
          secs = abs mod 86400
      in case civil (abs div 86400) of
           (y, m, d) \<Rightarrow>
             appendInt y 4 @ ''-'' @ appendInt m 2 @ ''-'' @ appendInt d 2 @ ''T''
             @ appendInt (secs div 3600) 2 @ '':'' @ appendInt (secs mod 3600 div 60) 2
             @ '':'' @ appendInt (secs mod 60) 2
             @ formatZone (zone_offset t))"

section \<open>SHA-256\<close>

text \<open>
  \<open>sha256.Sum256\<close> of the standard library, as FIPS 180-4 defines it, on 32-bit words.
  Bytes are natural numbers below 256; the round constants and the initial hash value
  are written in decimal.
\<close>

type_synonym u32 = "32 word"

definition sha_K :: "u32 list" where
  "sha_K = [1116352408, 1899447441, 3049323471, 3921009573, 961987163, 1508970993, 2453635748, 2870763221,
   3624381080, 310598401, 607225278, 1426881987, 1925078388, 2162078206, 2614888103, 3248222580,
   3835390401, 4022224774, 264347078, 604807628, 770255983, 1249150122, 1555081692, 1996064986,
   2554220882, 2821834349, 2952996808, 3210313671, 3336571891, 3584528711, 113926993, 338241895,
   666307205, 773529912, 1294757372, 1396182291, 1695183700, 1986661051, 2177026350, 2456956037,
   2730485921, 2820302411, 3259730800, 3345764771, 3516065817, 3600352804, 4094571909, 275423344,
   430227734, 506948616, 659060556, 883997877, 958139571, 1322822218, 1537002063, 1747873779,
   1955562222, 2024104815, 2227730452, 2361852424, 2428436474, 2756734187, 3204031479, 3329325298]"

type_synonym sha_state = "u32 \<times> u32 \<times> u32 \<times> u32 \<times> u32 \<times> u32 \<times> u32 \<times> u32"

definition sha_H0 :: sha_state where
  "sha_H0 = (1779033703, 3144134277, 1013904242, 2773480762, 1359893119, 2600822924, 528734635, 1541459225)"

definition rotr :: "nat \<Rightarrow> u32 \<Rightarrow> u32" where
  "rotr n x = (drop_bit n x) OR (push_bit (32 - n) x)"

definition bsig0 :: "u32 \<Rightarrow> u32" where
  "bsig0 x = rotr 2 x XOR rotr 13 x XOR rotr 22 x"

definition bsig1 :: "u32 \<Rightarrow> u32" where
  "bsig1 x = rotr 6 x XOR rotr 11 x XOR rotr 25 x"

definition ssig0 :: "u32 \<Rightarrow> u32" where
  "ssig0 x = rotr 7 x XOR rotr 18 x XOR drop_bit 3 x"

definition ssig1 :: "u32 \<Rightarrow> u32" where
  "ssig1 x = rotr 17 x XOR rotr 19 x XOR drop_bit 10 x"

definition ch :: "u32 \<Rightarrow> u32 \<Rightarrow> u32 \<Rightarrow> u32" where
  "ch x y z = (x AND y) XOR (NOT x AND z)"

definition maj :: "u32 \<Rightarrow> u32 \<Rightarrow> u32 \<Rightarrow> u32" where
  "maj x y z = (x AND y) XOR (x AND z) XOR (y AND z)"

text \<open>
  The message schedule, newest word first: one more word for every element of the first
  argument, from the words 2, 7, 15 and 16 places back.
\<close>

fun sha_extend :: "'a list \<Rightarrow> u32 list \<Rightarrow> u32 list" where
  "sha_extend [] ws = ws"
| "sha_extend (_ # ks) ws = sha_extend ks ((ssig1 (ws ! 1) + ws ! 6 + ssig0 (ws ! 14) + ws ! 15) # ws)"

fun round_fin :: "sha_state \<Rightarrow> u32 \<Rightarrow> u32 \<Rightarrow> sha_state" where
  "round_fin (a, b, c, d, e, f, g, h) t1 t2 = (t1 + t2, a, b, c, d + t1, e, f, g)"

fun round1 :: "sha_state \<Rightarrow> u32 \<times> u32 \<Rightarrow> sha_state" where
  "round1 (a, b, c, d, e, f, g, h) (k, w) =
     round_fin (a, b, c, d, e, f, g, h) (h + bsig1 e + ch e f g + k + w) (bsig0 a + maj a b c)"

fun add_state :: "sha_state \<Rightarrow> sha_state \<Rightarrow> sha_state" where
  "add_state (a, b, c, d, e, f, g, h) (a', b', c', d', e', f', g', h') =
     (a + a', b + b', c + c', d + d', e + e', f + f', g + g', h + h')"

definition compress :: "sha_state \<Rightarrow> u32 list \<Rightarrow> sha_state" where
  "compress hs blk = add_state hs (foldl round1 hs (zip sha_K (rev (sha_extend (drop 16 sha_K) (rev blk)))))"

fun state_words :: "sha_state \<Rightarrow> u32 list" where
  "state_words (a, b, c, d, e, f, g, h) = [a, b, c, d, e, f, g, h]"

fun be32 :: "nat list \<Rightarrow> u32 list" where
  "be32 (a # b # c # d # r) = of_nat (((a * 256 + b) * 256 + c) * 256 + d) # be32 r"
| "be32 _ = []"

fun chunks16 :: "u32 list \<Rightarrow> u32 list list" where
  "chunks16 [] = []"
| "chunks16 (w # ws) = take 16 (w # ws) # chunks16 (drop 16 (w # ws))"

definition be_bytes :: "nat \<Rightarrow> nat \<Rightarrow> nat list" where
  \<comment> \<open>the \<open>k\<close> low bytes of \<open>n\<close>, most significant first\<close>
  "be_bytes k n = map (\<lambda>i. (n div 256 ^ i) mod 256) (rev [0..<k])"

definition sha_pad :: "nat list \<Rightarrow> nat list" where
  "sha_pad m = m @ [128] @ replicate ((119 - length m mod 64) mod 64) 0 @ be_bytes 8 (8 * length m)"

definition Sum256 :: "nat list \<Rightarrow> nat list" where
  "Sum256 m =
     concat (map (\<lambda>w. be_bytes 4 (unat w))
       (state_words (foldl compress sha_H0 (chunks16 (be32 (sha_pad m))))))"

definition hexdigit :: "nat \<Rightarrow> char" where
  "hexdigit n = ''0123456789abcdef'' ! n"

definition hex :: "nat list \<Rightarrow> string" where
  \<comment> \<open>\<open>fmt.Sprintf("%x", bytes)\<close>\<close>
  "hex bs = concat (map (\<lambda>b. [hexdigit (b div 16), hexdigit (b mod 16)]) bs)"

definition bytes_of :: "string \<Rightarrow> nat list" where
  "bytes_of s = map of_char s"

section \<open>Package signals: the signal generator\<close>

text \<open>
  Of a signal the model keeps the identity, the timestamp and the fields copied from the
  match; the free-form context map and the trimmed rule description, on which no
  property below depends, are left out, and with them the lineage store of the generator.
  \<open>now\<close> is the reading of \<open>time.Now()\<close> that a generator function takes.
\<close>

record Generator =
  hostID :: string

record Match =
  RuleID :: string
  Title :: string
  Severity :: string
  Tags :: "string list"
  Message :: SantaMessage
  Timestamp :: Time
  Rule :: "Rule option"

record Signal =
  ID :: string
  TS :: Time
  HostID :: string
  RuleID :: string
  Status :: string
  Severity :: string
  Title :: string
  Tags :: "string list"

definition signalData :: "string \<Rightarrow> Time \<Rightarrow> string \<Rightarrow> string \<Rightarrow> string" where
  \<comment> \<open>\<open>fmt.Sprintf("%s|%s|%s|%s", ruleID, ts.Format(time.RFC3339), host, identifier)\<close>\<close>
  "signalData ruleID ts host identifier =
     ruleID @ ''|'' @ Format_RFC3339 ts @ ''|'' @ host @ ''|'' @ identifier"

definition generateSignalID :: "string \<Rightarrow> Time \<Rightarrow> string \<Rightarrow> string \<Rightarrow> string" where
  "generateSignalID ruleID ts host identifier =
     hex (take 16 (Sum256 (bytes_of (signalData ruleID ts host identifier))))"

definition FromRuleMatch :: "Generator \<Rightarrow> Time \<Rightarrow> Match \<Rightarrow> Signal" where
  "FromRuleMatch g now match =
     (let ts = (if IsZero (Match.Timestamp match) then now else Match.Timestamp match);
          targetIdentifier =
            (if TargetSHA256 (Match.Message match) = [] then TargetPath (Match.Message match)
             else TargetSHA256 (Match.Message match));
          signalID = generateSignalID (Match.RuleID match) ts (hostID g) targetIdentifier
      in \<lparr>Signal.ID = signalID,
          TS = ts,
          HostID = hostID g,
          RuleID = Match.RuleID match,
          Status = ''open'',
          Severity = Match.Severity match,
          Title = Match.Title match,
          Tags = Match.Tags match\<rparr>)"

definition FromWindowMatch :: "Generator \<Rightarrow> Time \<Rightarrow> WindowMatch \<Rightarrow> Signal" where
  "FromWindowMatch g now match =
     (let signalID = generateSignalID (WindowMatch.RuleID match) now (hostID g) (GroupKey match)
      in \<lparr>Signal.ID = signalID,
          TS = now,
          HostID = hostID g,
          RuleID = WindowMatch.RuleID match,
          Status = ''open'',
          Severity = WindowMatch.Severity match,
          Title = WindowMatch.Title match,
          Tags = WindowMatch.Tags match @ [''correlation'']\<rparr>)"

definition FromBaselineMatch :: "Generator \<Rightarrow> Time \<Rightarrow> BaselineMatch \<Rightarrow> Signal" where
  "FromBaselineMatch g now match =
     (let ts = (if IsZero (BaselineMatch.Timestamp match) then now else BaselineMatch.Timestamp match);
          signalID = generateSignalID (BaselineMatch.RuleID match) ts (hostID g) (Pattern match)
      in \<lparr>Signal.ID = signalID,
          TS = ts,
          HostID = hostID g,
          RuleID = BaselineMatch.RuleID match,
          Status = ''open'',
          Severity = BaselineMatch.Severity match,
          Title = BaselineMatch.Title match,
          Tags = BaselineMatch.Tags match @ [''baseline'']\<rparr>)"

section \<open>Auxiliary notions for stating the properties\<close>








text \<open>
  The IDs of all items of a configuration, section by section; the entries of a walk that
  the loader reads as rule files; and the IDs that a path contributes, none when the file
  cannot be read or decoded.
\<close>

definition allIDs :: "RulesConfig \<Rightarrow> string list" where
  "allIDs rc = map Rule.ID (Rules rc) @ map CorrelationRule.ID (Correlations rc)
               @ map BaselineRule.ID (Baselines rc)"

definition isRulesFile :: "DirEntry \<Rightarrow> bool" where
  "isRulesFile d \<longleftrightarrow> \<not> entryIsDir d
     \<and> (ToLower (Ext (entryPath d)) = ''.yaml'' \<or> ToLower (Ext (entryPath d)) = ''.yml'')"

definition rulesFiles :: "DirEntry list \<Rightarrow> string list" where
  "rulesFiles ds = map entryPath (filter isRulesFile ds)"

definition parsedIDs :: "FileSystem \<Rightarrow> string \<Rightarrow> string list" where
  "parsedIDs fs path = (case readFile fs path of Parsed config \<Rightarrow> allIDs config | _ \<Rightarrow> [])"


text \<open>
  For the baseline tracker: the event map that \<open>Processor.Process\<close> builds for a message;
  the first-seen keys \<open>(rule ID, pattern)\<close> that a message asks the store about, one for
  each rule whose expression holds on it; the matches of one key; and the processor run over
  a stream of messages, one call of \<open>Process\<close> after the other on the same store, the
  \<open>n\<close>-th call reading the clock \<open>clocks n\<close>.
\<close>

definition eventMapOf :: "Externals \<Rightarrow> SantaMessage \<Rightarrow> event_map" where
  "eventMapOf ext msg = (case ToMap ext msg of Inr m \<Rightarrow> BuildActivation msg m | Inl err \<Rightarrow> [])"

definition requests ::
  "Externals \<Rightarrow> CompiledBaseline list \<Rightarrow> SantaMessage \<Rightarrow> (string \<times> string) list"
where
  "requests ext baselines msg =
     map (\<lambda>b. (BaselineRule.ID (CompiledBaseline.Rule b),
                extractPattern (fmt ext) (eventMapOf ext msg) (Track (CompiledBaseline.Rule b))))
       (filter (\<lambda>b. CompiledBaseline.Program b msg = BoolVal True) baselines)"

definition matchesFor :: "string \<times> string \<Rightarrow> BaselineMatch list \<Rightarrow> BaselineMatch list" where
  "matchesFor key ms = filter (\<lambda>m. (BaselineMatch.RuleID m, Pattern m) = key) ms"

fun processStream ::
  "Externals \<Rightarrow> (nat \<Rightarrow> nat \<Rightarrow> Time) \<Rightarrow> Engine \<Rightarrow> CompiledBaseline list \<Rightarrow> nat
   \<Rightarrow> SantaMessage list \<Rightarrow> DB \<Rightarrow> baseline_error + (BaselineMatch list \<times> DB)"
where
  "processStream ext clocks engine baselines n [] db = Inr ([], db)"
| "processStream ext clocks engine baselines n (msg # rest) db =
     (case ProcessBaselines (ext\<lparr>clock := clocks n\<rparr>) engine msg baselines db of
        Inl err \<Rightarrow> Inl err
      | Inr (ms, db') \<Rightarrow>
          (case processStream ext clocks engine baselines (Suc n) rest db' of
             Inl err \<Rightarrow> Inl err
           | Inr (ms', db'') \<Rightarrow> Inr (ms @ ms', db'')))"

text \<open>
  For the report of a duplicate: all occurrences of IDs in the rule files of a walk, as
  pairs of the ID and the path of its file, in the order in which the walk meets them (file
  by file, and within a file rules, then correlations, then baselines). \<open>tracks\<close> says
  that the map \<open>idToFile\<close> of the walk records exactly the occurrences met so far, none
  of them twice.
\<close>

definition occurrences :: "FileSystem \<Rightarrow> string list \<Rightarrow> (string \<times> string) list" where
  "occurrences fs files = concat (map (\<lambda>f. map (\<lambda>i. (i, f)) (parsedIDs fs f)) files)"

definition tracks :: "(string \<times> string) list \<Rightarrow> (string \<times> string) list \<Rightarrow> bool" where
  "tracks idToFile met \<longleftrightarrow>
     distinct (map fst met) \<and> (\<forall>i f. map_of idToFile i = Some f \<longleftrightarrow> (i, f) \<in> set met)"
section \<open>Field extraction never fails on a broken path\<close>

lemma walk_append:
  "walk cur (xs @ ys) = (case walk cur xs of None \<Rightarrow> None | Some c \<Rightarrow> walk c ys)"
  by (induction xs arbitrary: cur) (auto split: jvalue.splits option.splits)

lemma walk_not_map:
  "(\<forall>obj. v \<noteq> JMap obj) \<Longrightarrow> walk v (p # ps) = None"
  by (cases v) auto

text \<open>
  Claim C9. \<open>ExtractField\<close> is a total function: its loop is a structural recursion over
  the segments of the dotted path and every case of the current value has an outcome.
  Whenever a segment that is not the last one names a key that the map reached so far does
  not have, or whose value is nil, or whose value is not a nested map, the result is the
  empty string.
\<close>

theorem ExtractField_missing_intermediate:
  assumes parts: "Split_dot field = pre @ k # rest"
    and inter: "rest \<noteq> []"
    and reach: "walk (JMap event) pre = Some (JMap obj)"
    and miss: "map_of obj k = None \<or> map_of obj k = Some JNil
               \<or> (\<exists>v. map_of obj k = Some v \<and> (\<forall>m. v \<noteq> JMap m))"
  shows "ExtractField fm event field = []"
proof -
  obtain r rs where rest: "rest = r # rs"
    using inter by (cases rest) auto
  define nxt where "nxt = (case map_of obj k of None \<Rightarrow> JNil | Some v \<Rightarrow> v)"
  have nomap: "\<forall>m. nxt \<noteq> JMap m"
    using miss by (auto simp: nxt_def)
  have "walk (JMap event) (pre @ k # rest) = walk (JMap obj) (k # rest)"
    by (simp add: walk_append reach)
  also have "\<dots> = walk nxt (r # rs)"
    by (simp add: nxt_def rest)
  also have "\<dots> = None"
    using nomap by (rule walk_not_map)
  finally show ?thesis
    by (simp add: ExtractField_def parts)
qed

theorem ExtractField_missing_intermediate_witness:
  "Split_dot ''a.c.d'' = [''a''] @ ''c'' # [''d'']
   \<and> walk (JMap [(''a'', JMap [(''b'', JStr ''x'')])]) [''a''] = Some (JMap [(''b'', JStr ''x'')])
   \<and> map_of [(''b'', JStr ''x'')] ''c'' = None
   \<and> ExtractField (\<lambda>v. ''?'') [(''a'', JMap [(''b'', JStr ''x'')])] ''a.c.d'' = []"
  using ExtractField_missing_intermediate
    [of "''a.c.d''" "[''a'']" "''c''" "[''d'']" "[(''a'', JMap [(''b'', JStr ''x'')])]"
        "[(''b'', JStr ''x'')]" "\<lambda>v. ''?''"]
  by simp

section \<open>Events without a usable event time\<close>

text \<open>
  Claim C8, amended. For a window other than zero, an event whose map has no
  \<open>event_time\<close>, or has nil there, or a value that is neither a time nor a string that
  parses with one of the two layouts, is not within the window. (For a window of zero
  \<open>withinWindow\<close> accepts every event before it looks at the map.)
\<close>

theorem withinWindow_without_event_time:
  assumes "window \<noteq> 0"
    and "map_of event ''event_time'' = None \<or> map_of event ''event_time'' = Some JNil
         \<or> (\<exists>v. map_of event ''event_time'' = Some v \<and> (\<forall>t. v \<noteq> JTime t)
                \<and> (\<forall>s. v = JStr s \<longrightarrow> pNano s = None \<and> p3339 s = None))"
  shows "\<not> withinWindow pNano p3339 event now window"
  using assms by (auto simp: withinWindow_def split: option.splits jvalue.splits)

theorem withinWindow_without_event_time_witness:
  "(300000000000 :: Duration) \<noteq> 0
   \<and> map_of [(''kind'', JStr ''execution''), (''event_time'', JStr ''yesterday'')] ''event_time''
       = Some (JStr ''yesterday'')
   \<and> \<not> withinWindow (\<lambda>s. None) (\<lambda>s. None)
         [(''kind'', JStr ''execution''), (''event_time'', JStr ''yesterday'')]
         \<lparr>unix_sec = 1700000000, nsec = 0, zone_offset = 0\<rparr> 300000000000"
  using withinWindow_without_event_time
    [of 300000000000 "[(''kind'', JStr ''execution''), (''event_time'', JStr ''yesterday'')]"
        "\<lambda>s. None" "\<lambda>s. None" "\<lparr>unix_sec = 1700000000, nsec = 0, zone_offset = 0\<rparr>"]
  by simp

text \<open>
  With a window of zero the test accepts an event that has no \<open>event_time\<close>.
\<close>

theorem withinWindow_zero_window_counterexample:
  "map_of [(''kind'', JStr ''execution'')] ''event_time'' = None
   \<and> withinWindow (\<lambda>s. None) (\<lambda>s. None) [(''kind'', JStr ''execution'')]
        \<lparr>unix_sec = 1700000000, nsec = 0, zone_offset = 0\<rparr> 0"
  by (simp add: withinWindow_def)

section \<open>Counting the events of a window\<close>

lemma count_seen_props:
  "distinct seen \<Longrightarrow>
   distinct (count_seen fm cd seen evs)
   \<and> set (count_seen fm cd seen evs)
       = set seen \<union> ((\<lambda>e. ExtractField fm e (TrimPrefix cd ''event.'')) ` set evs - {[]})"
  by (induction evs arbitrary: seen) (auto simp: Let_def)

text \<open>
  Claim C6, amended. With \<open>count_distinct\<close> set, the count is the number of distinct
  non-empty strings that \<open>ExtractField\<close> yields for that field (after the \<open>event.\<close>
  prefix is stripped) over the list it is given; an event where the field is missing, nil
  or the empty string adds nothing. With \<open>count_distinct\<close> unset, the count is the
  length of the list.
\<close>

theorem countEvents_counts:
  "countEvents fm evs rule =
     (if CountDistinct rule \<noteq> []
      then int (card ((\<lambda>e. ExtractField fm e (TrimPrefix (CountDistinct rule) ''event.'')) ` set evs - {[]}))
      else int (length evs))"
proof -
  have "distinct (count_seen fm (CountDistinct rule) [] evs)"
    and "set (count_seen fm (CountDistinct rule) [] evs)
         = (\<lambda>e. ExtractField fm e (TrimPrefix (CountDistinct rule) ''event.'')) ` set evs - {[]}"
    using count_seen_props [of "[]" fm "CountDistinct rule" evs] by auto
  then have "length (count_seen fm (CountDistinct rule) [] evs)
         = card ((\<lambda>e. ExtractField fm e (TrimPrefix (CountDistinct rule) ''event.'')) ` set evs - {[]})"
    using distinct_card by metis
  then show ?thesis
    by (simp add: countEvents_def)
qed

theorem countEvents_counts_witness:
  "countEvents (\<lambda>v. [])
     [[(''file_access'', JMap [(''policy_name'', JStr ''ChromeCookies'')])],
      [(''file_access'', JMap [(''policy_name'', JStr ''SSHPrivateKeys'')])],
      [(''file_access'', JMap [(''policy_name'', JStr ''ChromeCookies'')])],
      [(''file_access'', JMap [(''policy_name'', JStr [])])],
      [(''file_access'', JMap [(''other'', JStr ''x'')])]]
     \<lparr>CorrelationRule.ID = ''C-1'', Title = ''t'', Description = [], Expr = ''true'',
      Window = 300000000000, GroupBy = [], CountDistinct = ''event.file_access.policy_name'',
      Threshold = 3, Severity = ''high'', Tags = [], Enabled = True\<rparr> = 2"
  using countEvents_counts
    [of "\<lambda>v. []"
      "[[(''file_access'', JMap [(''policy_name'', JStr ''ChromeCookies'')])],
        [(''file_access'', JMap [(''policy_name'', JStr ''SSHPrivateKeys'')])],
        [(''file_access'', JMap [(''policy_name'', JStr ''ChromeCookies'')])],
        [(''file_access'', JMap [(''policy_name'', JStr [])])],
        [(''file_access'', JMap [(''other'', JStr ''x'')])]]"
      "\<lparr>CorrelationRule.ID = ''C-1'', Title = ''t'', Description = [], Expr = ''true'',
        Window = 300000000000, GroupBy = [], CountDistinct = ''event.file_access.policy_name'',
        Threshold = 3, Severity = ''high'', Tags = [], Enabled = True\<rparr>"]
  by (simp add: ExtractField_def TrimPrefix_def HasPrefix_def toString_def card_insert_if)

text \<open>
  Two events whose field holds the two values \<open>ChromeCookies\<close> and the empty string
  are counted as one.
\<close>

theorem countEvents_empty_value_counterexample:
  "countEvents (\<lambda>v. [])
     [[(''policy_name'', JStr ''ChromeCookies'')], [(''policy_name'', JStr [])]]
     \<lparr>CorrelationRule.ID = ''C-1'', Title = ''t'', Description = [], Expr = ''true'',
      Window = 300000000000, GroupBy = [], CountDistinct = ''policy_name'',
      Threshold = 3, Severity = ''high'', Tags = [], Enabled = True\<rparr> = 1
   \<and> card ((\<lambda>evt. map_of evt ''policy_name'')
            ` set [[(''policy_name'', JStr ''ChromeCookies'')], [(''policy_name'', JStr [])]]) = 2"
  by (simp add: countEvents_def ExtractField_def TrimPrefix_def HasPrefix_def toString_def)

section \<open>The correlation threshold\<close>









section \<open>Lineage is bounded and never revisits a key\<close>

lemma lineageLoop_invariant:
  assumes "distinct (map Node.Key chain)"
    and "set (map Node.Key chain) \<subseteq> set seen"
    and "\<forall>c. current = Some c \<longrightarrow> Node.Key c \<notin> set seen"
  shows "distinct (map Node.Key (lineageLoop nds maxDepth chain seen current))
         \<and> int (length (lineageLoop nds maxDepth chain seen current)) \<le> max maxDepth (int (length chain))"
  using assms
proof (induction nds maxDepth chain seen current rule: lineageLoop.induct)
  case (1 nds maxDepth chain seen current)
  show ?case
  proof (cases current)
    case None
    then show ?thesis using "1.prems" by simp
  next
    case (Some cur)
    note cur = Some
    have fresh: "Node.Key cur \<notin> set seen" using "1.prems"(3) cur by simp
    then have d': "distinct (map Node.Key (chain @ [cur]))"
      using "1.prems"(1,2) by auto
    have s': "set (map Node.Key (chain @ [cur])) \<subseteq> set (Node.Key cur # seen)"
      using "1.prems"(2) by auto
    show ?thesis
    proof (cases "int (length chain) < maxDepth")
      case False
      then show ?thesis using cur "1.prems" by simp
    next
      case depth: True
      show ?thesis
      proof (cases "Key_IsZero (Parent cur)")
        case True
        then show ?thesis using cur depth d' by simp
      next
        case nz: False
        show ?thesis
        proof (cases "nds (Parent cur)")
          case None
          then show ?thesis using cur depth nz d' by simp
        next
          case (Some nxt)
          show ?thesis
          proof (cases "Node.Key nxt \<in> set (Node.Key cur # seen)")
            case True
            then show ?thesis using cur depth nz Some d' by simp
          next
            case False
            have eq: "lineageLoop nds maxDepth chain seen current
                      = lineageLoop nds maxDepth (chain @ [cur]) (Node.Key cur # seen) (Some nxt)"
              using cur depth nz Some False by simp
            have "distinct (map Node.Key (lineageLoop nds maxDepth (chain @ [cur]) (Node.Key cur # seen) (Some nxt)))
                  \<and> int (length (lineageLoop nds maxDepth (chain @ [cur]) (Node.Key cur # seen) (Some nxt)))
                      \<le> max maxDepth (int (length (chain @ [cur])))"
              using "1.IH" [OF cur _ nz Some False d' s'] depth False by simp
            then show ?thesis using eq depth by auto
          qed
        qed
      qed
    qed
  qed
qed

text \<open>
  Claim C4, amended. \<open>Lineage\<close> terminates on every store, key and depth: its loop is
  defined with a measure, the distance of the chain length from the depth bound. The chain
  has at most \<open>maxDepth\<close> nodes when \<open>maxDepth\<close> is positive and at most 8 nodes, the
  default that replaces a bound of zero or less, otherwise; and no two nodes of the chain
  have the same key.
\<close>

theorem Lineage_bounded_acyclic:
  "int (length (Lineage s key maxDepth)) \<le> (if maxDepth \<le> 0 then 8 else maxDepth)
   \<and> distinct (map Node.Key (Lineage s key maxDepth))"
proof -
  define d where "d = (if maxDepth \<le> 0 then 8 else maxDepth)"
  have dpos: "0 < d" by (simp add: d_def)
  have loop: "distinct (map Node.Key (lineageLoop nds d [] [] cur))
        \<and> int (length (lineageLoop nds d [] [] cur)) \<le> max d 0" for nds cur
    using lineageLoop_invariant [of "[]" "[]" cur nds d] by (simp del: lineageLoop.simps)
  have L: "Lineage s key maxDepth =
        (if nodes s = [] then [] else lineageLoop (map_of (nodes s)) d [] [] (map_of (nodes s) key))"
    by (simp add: Lineage_def d_def del: lineageLoop.simps)
  show ?thesis
  proof (cases "nodes s = []")
    case True
    then show ?thesis using L dpos by (simp add: d_def)
  next
    case False
    then show ?thesis
      using L loop [of "map_of (nodes s)" "map_of (nodes s) key"] dpos
      unfolding d_def [symmetric] by (simp del: lineageLoop.simps)
  qed
qed

theorem Lineage_bounded_acyclic_witness:
  "int (length (Lineage
     \<lparr>nodes = [(\<lparr>BootUUID = ''boot'', Pid = 1, PidVersion = 100\<rparr>,
                \<lparr>Node.Key = \<lparr>BootUUID = ''boot'', Pid = 1, PidVersion = 100\<rparr>,
                 Parent = \<lparr>BootUUID = ''boot'', Pid = 2, PidVersion = 200\<rparr>,
                 Responsible = \<lparr>BootUUID = [], Pid = 0, PidVersion = 0\<rparr>,
                 Path = ''/bin/bash'', User = ''root'', UID = 0, Group = ''wheel'', GID = 0,
                 SessionID = 1, Args = [],
                 StartTime = \<lparr>unix_sec = 1700000000, nsec = 0, zone_offset = 0\<rparr>,
                 CreatedAt = \<lparr>unix_sec = 1700000000, nsec = 0, zone_offset = 0\<rparr>\<rparr>),
               (\<lparr>BootUUID = ''boot'', Pid = 2, PidVersion = 200\<rparr>,
                \<lparr>Node.Key = \<lparr>BootUUID = ''boot'', Pid = 2, PidVersion = 200\<rparr>,
                 Parent = \<lparr>BootUUID = ''boot'', Pid = 1, PidVersion = 100\<rparr>,
                 Responsible = \<lparr>BootUUID = [], Pid = 0, PidVersion = 0\<rparr>,
                 Path = ''/usr/bin/python'', User = ''root'', UID = 0, Group = ''wheel'', GID = 0,
                 SessionID = 1, Args = [],
                 StartTime = \<lparr>unix_sec = 1700000000, nsec = 0, zone_offset = 0\<rparr>,
                 CreatedAt = \<lparr>unix_sec = 1700000000, nsec = 0, zone_offset = 0\<rparr>\<rparr>)],
      maxEntries = 100, ttl = 3600000000000\<rparr>
     \<lparr>BootUUID = ''boot'', Pid = 1, PidVersion = 100\<rparr> 10)) \<le> 10"
  using Lineage_bounded_acyclic
    [of "\<lparr>nodes = [(\<lparr>BootUUID = ''boot'', Pid = 1, PidVersion = 100\<rparr>,
                \<lparr>Node.Key = \<lparr>BootUUID = ''boot'', Pid = 1, PidVersion = 100\<rparr>,
                 Parent = \<lparr>BootUUID = ''boot'', Pid = 2, PidVersion = 200\<rparr>,
                 Responsible = \<lparr>BootUUID = [], Pid = 0, PidVersion = 0\<rparr>,
                 Path = ''/bin/bash'', User = ''root'', UID = 0, Group = ''wheel'', GID = 0,
                 SessionID = 1, Args = [],
                 StartTime = \<lparr>unix_sec = 1700000000, nsec = 0, zone_offset = 0\<rparr>,
                 CreatedAt = \<lparr>unix_sec = 1700000000, nsec = 0, zone_offset = 0\<rparr>\<rparr>),
               (\<lparr>BootUUID = ''boot'', Pid = 2, PidVersion = 200\<rparr>,
                \<lparr>Node.Key = \<lparr>BootUUID = ''boot'', Pid = 2, PidVersion = 200\<rparr>,
                 Parent = \<lparr>BootUUID = ''boot'', Pid = 1, PidVersion = 100\<rparr>,
                 Responsible = \<lparr>BootUUID = [], Pid = 0, PidVersion = 0\<rparr>,
                 Path = ''/usr/bin/python'', User = ''root'', UID = 0, Group = ''wheel'', GID = 0,
                 SessionID = 1, Args = [],
                 StartTime = \<lparr>unix_sec = 1700000000, nsec = 0, zone_offset = 0\<rparr>,
                 CreatedAt = \<lparr>unix_sec = 1700000000, nsec = 0, zone_offset = 0\<rparr>\<rparr>)],
      maxEntries = 100, ttl = 3600000000000\<rparr>"
      "\<lparr>BootUUID = ''boot'', Pid = 1, PidVersion = 100\<rparr>" 10]
  by (simp del: lineageLoop.simps)

text \<open>
  With a depth bound of zero the chain of a known key has one node.
\<close>

theorem Lineage_zero_depth_counterexample:
  "Lineage
     \<lparr>nodes = [(\<lparr>BootUUID = ''boot'', Pid = 1, PidVersion = 100\<rparr>,
                \<lparr>Node.Key = \<lparr>BootUUID = ''boot'', Pid = 1, PidVersion = 100\<rparr>,
                 Parent = \<lparr>BootUUID = [], Pid = 0, PidVersion = 0\<rparr>,
                 Responsible = \<lparr>BootUUID = [], Pid = 0, PidVersion = 0\<rparr>,
                 Path = ''/sbin/launchd'', User = ''root'', UID = 0, Group = ''wheel'', GID = 0,
                 SessionID = 1, Args = [],
                 StartTime = \<lparr>unix_sec = 1700000000, nsec = 0, zone_offset = 0\<rparr>,
                 CreatedAt = \<lparr>unix_sec = 1700000000, nsec = 0, zone_offset = 0\<rparr>\<rparr>)],
      maxEntries = 50000, ttl = 3600000000000\<rparr>
     \<lparr>BootUUID = ''boot'', Pid = 1, PidVersion = 100\<rparr> 0
   = [\<lparr>Node.Key = \<lparr>BootUUID = ''boot'', Pid = 1, PidVersion = 100\<rparr>,
                 Parent = \<lparr>BootUUID = [], Pid = 0, PidVersion = 0\<rparr>,
                 Responsible = \<lparr>BootUUID = [], Pid = 0, PidVersion = 0\<rparr>,
                 Path = ''/sbin/launchd'', User = ''root'', UID = 0, Group = ''wheel'', GID = 0,
                 SessionID = 1, Args = [],
                 StartTime = \<lparr>unix_sec = 1700000000, nsec = 0, zone_offset = 0\<rparr>,
                 CreatedAt = \<lparr>unix_sec = 1700000000, nsec = 0, zone_offset = 0\<rparr>\<rparr>]"
  by (simp add: Lineage_def Key_IsZero_def)

section \<open>Duplicate IDs are a load error\<close>

lemma validateRules_Inr:
  "validateRules seen rs = Inr seen' \<Longrightarrow>
     distinct (map Rule.ID rs) \<and> set (map Rule.ID rs) \<inter> set seen = {}
     \<and> set seen' = set seen \<union> set (map Rule.ID rs)"
proof (induction rs arbitrary: seen)
  case Nil
  then show ?case by simp
next
  case (Cons r rs)
  from Cons.prems have fresh: "Rule.ID r \<notin> set seen"
    and rest: "validateRules (Rule.ID r # seen) rs = Inr seen'"
    by (auto split: if_splits option.splits)
  from Cons.IH [OF rest] fresh show ?case by auto
qed

lemma validateCorrelations_Inr:
  "validateCorrelations seen rs = Inr seen' \<Longrightarrow>
     distinct (map CorrelationRule.ID rs) \<and> set (map CorrelationRule.ID rs) \<inter> set seen = {}
     \<and> set seen' = set seen \<union> set (map CorrelationRule.ID rs)"
proof (induction rs arbitrary: seen)
  case Nil
  then show ?case by simp
next
  case (Cons r rs)
  from Cons.prems have fresh: "CorrelationRule.ID r \<notin> set seen"
    and rest: "validateCorrelations (CorrelationRule.ID r # seen) rs = Inr seen'"
    by (auto split: if_splits option.splits)
  from Cons.IH [OF rest] fresh show ?case by auto
qed

lemma validateBaselines_Inr:
  "validateBaselines seen rs = Inr seen' \<Longrightarrow>
     distinct (map BaselineRule.ID rs) \<and> set (map BaselineRule.ID rs) \<inter> set seen = {}
     \<and> set seen' = set seen \<union> set (map BaselineRule.ID rs)"
proof (induction rs arbitrary: seen)
  case Nil
  then show ?case by simp
next
  case (Cons r rs)
  from Cons.prems have fresh: "BaselineRule.ID r \<notin> set seen"
    and rest: "validateBaselines (BaselineRule.ID r # seen) rs = Inr seen'"
    by (auto split: if_splits option.splits)
  from Cons.IH [OF rest] fresh show ?case by auto
qed

lemma Validate_None_distinct:
  assumes "Validate rc = None"
  shows "distinct (allIDs rc)"
proof -
  from assms obtain s1 s2 s3 where
    v1: "validateRules [] (Rules rc) = Inr s1"
    and v2: "validateCorrelations s1 (Correlations rc) = Inr s2"
    and v3: "validateBaselines s2 (Baselines rc) = Inr s3"
    by (auto simp: Validate_def split: sum.splits)
  from validateRules_Inr [OF v1] validateCorrelations_Inr [OF v2] validateBaselines_Inr [OF v3]
  show ?thesis
    by (auto simp: allIDs_def)
qed

lemma checkIDs_Inr:
  "checkIDs sec path ids m = Inr m' \<Longrightarrow>
     distinct ids \<and> set ids \<inter> dom (map_of m) = {}
     \<and> (\<forall>i. map_of m' i = (if i \<in> set ids then Some path else map_of m i))"
proof (induction ids arbitrary: m)
  case Nil
  then show ?case by simp
next
  case (Cons i ids)
  from Cons.prems have none: "map_of m i = None"
    and rest: "checkIDs sec path ids (AList.update i path m) = Inr m'"
    by (auto split: option.splits)
  from Cons.IH [OF rest] have
    d: "distinct ids" and disj: "set ids \<inter> dom (map_of (AList.update i path m)) = {}"
    and look: "\<forall>j. map_of m' j = (if j \<in> set ids then Some path else map_of (AList.update i path m) j)"
    by auto
  have "i \<notin> set ids" using disj by (auto simp: update_conv')
  moreover have "set ids \<inter> dom (map_of m) = {}" using disj by (auto simp: update_conv')
  ultimately show ?case
    using d none look by (auto simp: update_conv' domIff)
qed

text \<open>The three checks of one file, taken together.\<close>

lemma checkIDs_dom:
  assumes "checkIDs sec path ids m = Inr m'"
  shows "dom (map_of m') = dom (map_of m) \<union> set ids"
  using checkIDs_Inr [OF assms] by (auto simp: domIff split: if_splits)

lemma checkFile_Inr:
  assumes "checkIDs InRules path (map Rule.ID (Rules c)) m = Inr m1"
    and "checkIDs InCorrelations path (map CorrelationRule.ID (Correlations c)) m1 = Inr m2"
    and "checkIDs InBaselines path (map BaselineRule.ID (Baselines c)) m2 = Inr m3"
  shows "distinct (allIDs c) \<and> set (allIDs c) \<inter> dom (map_of m) = {}
         \<and> (\<forall>i. map_of m3 i = (if i \<in> set (allIDs c) then Some path else map_of m i))"
proof -
  let ?A = "map Rule.ID (Rules c)" and ?B = "map CorrelationRule.ID (Correlations c)"
    and ?C = "map BaselineRule.ID (Baselines c)"
  note a = checkIDs_Inr [OF assms(1)] and b = checkIDs_Inr [OF assms(2)] and c = checkIDs_Inr [OF assms(3)]
  have da: "dom (map_of m1) = dom (map_of m) \<union> set ?A"
    and db: "dom (map_of m2) = dom (map_of m1) \<union> set ?B"
    using checkIDs_dom [OF assms(1)] checkIDs_dom [OF assms(2)] by auto
  have ia: "set ?A \<inter> dom (map_of m) = {}" and ib: "set ?B \<inter> dom (map_of m1) = {}"
    and ic: "set ?C \<inter> dom (map_of m2) = {}"
    using a b c by blast+
  have d1: "set ?A \<inter> set ?B = {}" using ib da by blast
  have d2: "(set ?A \<union> set ?B) \<inter> set ?C = {}" using ic da db by blast
  have dm: "set (allIDs c) \<inter> dom (map_of m) = {}"
    unfolding allIDs_def using ia ib ic da db by auto
  have dist: "distinct (allIDs c)"
    unfolding allIDs_def using a b c d1 d2 by auto
  have la: "\<forall>i. map_of m1 i = (if i \<in> set ?A then Some path else map_of m i)" using a by blast
  have lb: "\<forall>i. map_of m2 i = (if i \<in> set ?B then Some path else map_of m1 i)" using b by blast
  have lc: "\<forall>i. map_of m3 i = (if i \<in> set ?C then Some path else map_of m2 i)" using c by blast
  have "\<forall>i. map_of m3 i = (if i \<in> set (allIDs c) then Some path else map_of m i)"
    unfolding allIDs_def using la lb lc by simp
  with dist dm show ?thesis by blast
qed

lemma rulesFiles_Cons:
  "rulesFiles (d # ds) = (if isRulesFile d then entryPath d # rulesFiles ds else rulesFiles ds)"
  by (simp add: rulesFiles_def)

lemma walkEntries_skip:
  "\<not> entryErr d \<Longrightarrow> \<not> isRulesFile d \<Longrightarrow>
   walkEntries fs (d # ds) m merged = walkEntries fs ds m merged"
  by (auto simp: isRulesFile_def)

lemma walkEntries_file:
  "\<not> entryErr d \<Longrightarrow> isRulesFile d \<Longrightarrow>
   walkEntries fs (d # ds) m merged =
     (case readFile fs (entryPath d) of
        Unreadable \<Rightarrow> Inl (FailedToRead (entryPath d))
      | Malformed \<Rightarrow> Inl (FailedToParse (entryPath d))
      | Parsed config \<Rightarrow>
          (case checkIDs InRules (entryPath d) (map Rule.ID (Rules config)) m of
             Inl err \<Rightarrow> Inl err
           | Inr m1 \<Rightarrow>
               (case checkIDs InCorrelations (entryPath d)
                       (map CorrelationRule.ID (Correlations config)) m1 of
                  Inl err \<Rightarrow> Inl err
                | Inr m2 \<Rightarrow>
                    (case checkIDs InBaselines (entryPath d)
                            (map BaselineRule.ID (Baselines config)) m2 of
                       Inl err \<Rightarrow> Inl err
                     | Inr m3 \<Rightarrow> walkEntries fs ds m3 (Merge merged config)))))"
  by (auto simp: isRulesFile_def)

lemma walkEntries_Inr:
  assumes "walkEntries fs ds m merged = Inr merged'"
    and "dom (map_of m) = set ids0" and "distinct ids0"
  shows "distinct (ids0 @ concat (map (parsedIDs fs) (rulesFiles ds)))"
  using assms
proof (induction ds arbitrary: m merged ids0)
  case Nil
  then show ?case by (simp add: rulesFiles_def)
next
  case (Cons d ds)
  have noerr: "\<not> entryErr d" using Cons.prems(1) by (auto split: if_splits)
  show ?case
  proof (cases "isRulesFile d")
    case False
    from Cons.prems(1) have "walkEntries fs ds m merged = Inr merged'"
      by (simp only: walkEntries_skip [OF noerr False])
    from Cons.IH [OF this Cons.prems(2,3)] show ?thesis
      by (simp add: rulesFiles_Cons False)
  next
    case True
    let ?p = "entryPath d"
    from Cons.prems(1) obtain c m1 m2 m3 where c: "readFile fs ?p = Parsed c"
      and k1: "checkIDs InRules ?p (map Rule.ID (Rules c)) m = Inr m1"
      and k2: "checkIDs InCorrelations ?p (map CorrelationRule.ID (Correlations c)) m1 = Inr m2"
      and k3: "checkIDs InBaselines ?p (map BaselineRule.ID (Baselines c)) m2 = Inr m3"
      and w: "walkEntries fs ds m3 (Merge merged c) = Inr merged'"
      unfolding walkEntries_file [OF noerr True]
      by (auto split: file_content.splits sum.splits)
    have pid: "parsedIDs fs ?p = allIDs c" by (simp add: parsedIDs_def c)
    from checkFile_Inr [OF k1 k2 k3]
    have dist: "distinct (allIDs c)" and disj: "set (allIDs c) \<inter> dom (map_of m) = {}"
      and look: "\<forall>i. map_of m3 i = (if i \<in> set (allIDs c) then Some ?p else map_of m i)"
      by blast+
    have "x \<in> dom (map_of m3) \<longleftrightarrow> x \<in> set (allIDs c) \<or> x \<in> dom (map_of m)" for x
      using look by (auto simp: domIff)
    then have dom3: "dom (map_of m3) = set (ids0 @ allIDs c)"
      using Cons.prems(2) by auto
    have d3: "distinct (ids0 @ allIDs c)"
      using dist disj Cons.prems(2,3) by auto
    from Cons.IH [OF w dom3 d3] show ?thesis
      by (simp add: rulesFiles_Cons True pid)
  qed
qed

lemma occurrences_Cons:
  "occurrences fs (f # files) = map (\<lambda>i. (i, f)) (parsedIDs fs f) @ occurrences fs files"
  by (simp add: occurrences_def)

lemma occurrences_ids: "map fst (occurrences fs files) = concat (map (parsedIDs fs) files)"
  by (induction files) (simp_all add: occurrences_def o_def)

lemma occurrences_mem:
  "(i, f) \<in> set (occurrences fs files) \<longleftrightarrow> f \<in> set files \<and> i \<in> set (parsedIDs fs f)"
  by (auto simp: occurrences_def)

lemma occurrences_of_file:
  assumes "distinct files" and "f \<in> set files"
  shows "map fst (filter (\<lambda>p. snd p = f) (occurrences fs files)) = parsedIDs fs f"
  using assms
proof (induction files)
  case Nil
  then show ?case by simp
next
  case (Cons g files)
  have own: "map fst (filter (\<lambda>p. snd p = f) (map (\<lambda>i. (i, g)) ids)) = (if g = f then ids else [])"
    for ids :: "string list"
    by (induction ids) auto
  show ?case
  proof (cases "g = f")
    case True
    then have "f \<notin> set files" using Cons.prems(1) by simp
    then have "filter (\<lambda>p. snd p = f) (occurrences fs files) = []"
      by (auto simp: filter_empty_conv occurrences_def)
    then show ?thesis
      using True by (simp add: occurrences_Cons own [simplified] o_def)
  next
    case False
    then have "f \<in> set files" "distinct files" using Cons.prems by auto
    from Cons.IH [OF this(2,1)] False show ?thesis
      by (simp add: occurrences_Cons own [simplified] o_def)
  qed
qed

lemma repeat_within_file:
  assumes "occurrences fs files = pre @ (i, f) # post" and "(i, f) \<in> set pre"
    and "distinct files" and "f \<in> set files"
  shows "\<not> distinct (parsedIDs fs f)"
proof -
  have "map fst (filter (\<lambda>p. snd p = f) (occurrences fs files))
        = map fst (filter (\<lambda>p. snd p = f) pre) @ i # map fst (filter (\<lambda>p. snd p = f) post)"
    by (simp add: assms(1))
  moreover have "i \<in> set (map fst (filter (\<lambda>p. snd p = f) pre))"
    using assms(2) by force
  ultimately have "\<not> distinct (map fst (filter (\<lambda>p. snd p = f) (occurrences fs files)))"
    by simp
  then show ?thesis
    by (simp add: occurrences_of_file [OF assms(3,4)])
qed

text \<open>
  One duplicate check keeps the map in step with the occurrences met; when it fails, it
  fails at the first ID that was met before, and names the file recorded for it.
\<close>

lemma tracks_update:
  assumes "tracks m met" and "map_of m i = None"
  shows "tracks (AList.update i path m) (met @ [(i, path)])"
proof -
  have fresh: "(i, f) \<notin> set met" for f
  proof
    assume "(i, f) \<in> set met"
    then have "map_of m i = Some f"
      using assms(1) unfolding tracks_def by blast
    with assms(2) show False by simp
  qed
  then have "i \<notin> fst ` set met" by force
  moreover have "(map_of (AList.update i path m) j = Some f)
                 = ((j, f) \<in> set (met @ [(i, path)]))" for j f
    using assms(1) fresh by (auto simp: tracks_def update_conv')
  ultimately show ?thesis
    using assms(1) by (simp add: tracks_def)
qed

lemma checkIDs_tracks_Inr:
  "tracks m met \<Longrightarrow> checkIDs sec path ids m = Inr m'
   \<Longrightarrow> tracks m' (met @ map (\<lambda>i. (i, path)) ids)"
proof (induction ids arbitrary: m met)
  case Nil
  then show ?case by simp
next
  case (Cons i ids)
  from Cons.prems(2) have none: "map_of m i = None"
    and rest: "checkIDs sec path ids (AList.update i path m) = Inr m'"
    by (auto split: option.splits)
  from Cons.IH [OF tracks_update [OF Cons.prems(1) none] rest] show ?case by simp
qed

lemma checkIDs_tracks_Inl:
  "tracks m met \<Longrightarrow> checkIDs sec path ids m = Inl err
   \<Longrightarrow> \<exists>i f pre post. err = DuplicateFoundInBoth sec i f path \<and> ids = pre @ i # post
         \<and> distinct (map fst (met @ map (\<lambda>j. (j, path)) pre))
         \<and> (i, f) \<in> set (met @ map (\<lambda>j. (j, path)) pre)"
proof (induction ids arbitrary: m met)
  case Nil
  then show ?case by simp
next
  case (Cons i ids)
  show ?case
  proof (cases "map_of m i")
    case (Some f)
    then have "err = DuplicateFoundInBoth sec i f path" using Cons.prems(2) by simp
    moreover have "(i, f) \<in> set met" "distinct (map fst met)"
      using Some Cons.prems(1) by (auto simp: tracks_def)
    ultimately have "err = DuplicateFoundInBoth sec i f path \<and> i # ids = [] @ i # ids
         \<and> distinct (map fst (met @ map (\<lambda>j. (j, path)) []))
         \<and> (i, f) \<in> set (met @ map (\<lambda>j. (j, path)) [])"
      by simp
    then show ?thesis by blast
  next
    case None
    then have rest: "checkIDs sec path ids (AList.update i path m) = Inl err"
      using Cons.prems(2) by simp
    from Cons.IH [OF tracks_update [OF Cons.prems(1) None] rest] obtain k f pre post where
      e: "err = DuplicateFoundInBoth sec k f path" and ids: "ids = pre @ k # post"
      and d: "distinct (map fst ((met @ [(i, path)]) @ map (\<lambda>j. (j, path)) pre))"
      and mem: "(k, f) \<in> set ((met @ [(i, path)]) @ map (\<lambda>j. (j, path)) pre)"
      by blast
    have "err = DuplicateFoundInBoth sec k f path \<and> i # ids = (i # pre) @ k # post
         \<and> distinct (map fst (met @ map (\<lambda>j. (j, path)) (i # pre)))
         \<and> (k, f) \<in> set (met @ map (\<lambda>j. (j, path)) (i # pre))"
      using e ids d mem by simp
    then show ?thesis by blast
  qed
qed

text \<open>The same for the three checks of a file, whose IDs are \<open>A\<close>, \<open>B\<close> and \<open>C\<close>.\<close>

lemma checkFile_tracks:
  assumes t: "tracks m met"
    and res: "res = (case checkIDs InRules path A m of
                       Inl err \<Rightarrow> Inl err
                     | Inr m1 \<Rightarrow>
                         (case checkIDs InCorrelations path B m1 of
                            Inl err \<Rightarrow> Inl err
                          | Inr m2 \<Rightarrow> checkIDs InBaselines path C m2))"
  shows "case res of
           Inr m3 \<Rightarrow> tracks m3 (met @ map (\<lambda>i. (i, path)) (A @ B @ C))
         | Inl err \<Rightarrow>
             (\<exists>sec i f pre post. err = DuplicateFoundInBoth sec i f path
                \<and> A @ B @ C = pre @ i # post
                \<and> distinct (map fst (met @ map (\<lambda>j. (j, path)) pre))
                \<and> (i, f) \<in> set (met @ map (\<lambda>j. (j, path)) pre))"
proof (cases "checkIDs InRules path A m")
  case (Inl err)
  have r: "res = Inl err" by (simp add: res Inl)
  from checkIDs_tracks_Inl [OF t Inl] obtain i f pre post where
    "err = DuplicateFoundInBoth InRules i f path" "A = pre @ i # post"
    "distinct (map fst (met @ map (\<lambda>j. (j, path)) pre))"
    "(i, f) \<in> set (met @ map (\<lambda>j. (j, path)) pre)"
    by blast
  then have "err = DuplicateFoundInBoth InRules i f path
      \<and> A @ B @ C = pre @ i # (post @ B @ C)
      \<and> distinct (map fst (met @ map (\<lambda>j. (j, path)) pre))
      \<and> (i, f) \<in> set (met @ map (\<lambda>j. (j, path)) pre)"
    by simp
  then have "\<exists>sec i f pre post. err = DuplicateFoundInBoth sec i f path
                \<and> A @ B @ C = pre @ i # post
                \<and> distinct (map fst (met @ map (\<lambda>j. (j, path)) pre))
                \<and> (i, f) \<in> set (met @ map (\<lambda>j. (j, path)) pre)"
    by blast
  then show ?thesis unfolding r sum.case .
next
  case r1: (Inr m1)
  have t1: "tracks m1 (met @ map (\<lambda>i. (i, path)) A)"
    by (rule checkIDs_tracks_Inr [OF t r1])
  show ?thesis
  proof (cases "checkIDs InCorrelations path B m1")
    case (Inl err)
    have r: "res = Inl err" by (simp add: res r1 Inl)
    from checkIDs_tracks_Inl [OF t1 Inl] obtain i f pre post where
      "err = DuplicateFoundInBoth InCorrelations i f path" "B = pre @ i # post"
      "distinct (map fst ((met @ map (\<lambda>j. (j, path)) A) @ map (\<lambda>j. (j, path)) pre))"
      "(i, f) \<in> set ((met @ map (\<lambda>j. (j, path)) A) @ map (\<lambda>j. (j, path)) pre)"
      by blast
    then have "err = DuplicateFoundInBoth InCorrelations i f path
        \<and> A @ B @ C = (A @ pre) @ i # (post @ C)
        \<and> distinct (map fst (met @ map (\<lambda>j. (j, path)) (A @ pre)))
        \<and> (i, f) \<in> set (met @ map (\<lambda>j. (j, path)) (A @ pre))"
      by simp
    then have "\<exists>sec i f pre post. err = DuplicateFoundInBoth sec i f path
                \<and> A @ B @ C = pre @ i # post
                \<and> distinct (map fst (met @ map (\<lambda>j. (j, path)) pre))
                \<and> (i, f) \<in> set (met @ map (\<lambda>j. (j, path)) pre)"
      by blast
    then show ?thesis unfolding r sum.case .
  next
    case r2: (Inr m2)
    have t2: "tracks m2 (met @ map (\<lambda>i. (i, path)) (A @ B))"
      using checkIDs_tracks_Inr [OF t1 r2] by simp
    show ?thesis
    proof (cases "checkIDs InBaselines path C m2")
      case (Inl err)
      have r: "res = Inl err" by (simp add: res r1 r2 Inl)
      from checkIDs_tracks_Inl [OF t2 Inl] obtain i f pre post where
        "err = DuplicateFoundInBoth InBaselines i f path" "C = pre @ i # post"
        "distinct (map fst ((met @ map (\<lambda>j. (j, path)) (A @ B)) @ map (\<lambda>j. (j, path)) pre))"
        "(i, f) \<in> set ((met @ map (\<lambda>j. (j, path)) (A @ B)) @ map (\<lambda>j. (j, path)) pre)"
        by blast
      then have "err = DuplicateFoundInBoth InBaselines i f path
          \<and> A @ B @ C = (A @ B @ pre) @ i # post
          \<and> distinct (map fst (met @ map (\<lambda>j. (j, path)) (A @ B @ pre)))
          \<and> (i, f) \<in> set (met @ map (\<lambda>j. (j, path)) (A @ B @ pre))"
        by simp
      then have "\<exists>sec i f pre post. err = DuplicateFoundInBoth sec i f path
                \<and> A @ B @ C = pre @ i # post
                \<and> distinct (map fst (met @ map (\<lambda>j. (j, path)) pre))
                \<and> (i, f) \<in> set (met @ map (\<lambda>j. (j, path)) pre)"
        by blast
      then show ?thesis unfolding r sum.case .
    next
      case r3: (Inr m3)
      have r: "res = Inr m3" by (simp add: res r1 r2 r3)
      have "tracks m3 (met @ map (\<lambda>i. (i, path)) (A @ B @ C))"
        using checkIDs_tracks_Inr [OF t2 r3] by simp
      then show ?thesis unfolding r sum.case .
    qed
  qed
qed

text \<open>
  The walk over entries without walk error whose rule files all decode: if it fails, it
  fails at the first occurrence of an ID that was met before, and the error names the file
  of the earlier occurrence and the file of this one.
\<close>

lemma walkEntries_first_repeat:
  assumes "\<forall>d\<in>set ds. \<not> entryErr d \<and> (isRulesFile d \<longrightarrow> (\<exists>c. readFile fs (entryPath d) = Parsed c))"
    and "tracks m met"
    and "walkEntries fs ds m merged = Inl err"
  shows "\<exists>sec i f1 f2 pre post. err = DuplicateFoundInBoth sec i f1 f2
           \<and> occurrences fs (rulesFiles ds) = pre @ (i, f2) # post
           \<and> distinct (map fst (met @ pre)) \<and> (i, f1) \<in> set (met @ pre)"
  using assms
proof (induction ds arbitrary: m merged met)
  case Nil
  then show ?case by simp
next
  case (Cons d ds)
  have noerr: "\<not> entryErr d" using Cons.prems(1) by simp
  have good: "\<forall>d\<in>set ds. \<not> entryErr d \<and> (isRulesFile d \<longrightarrow> (\<exists>c. readFile fs (entryPath d) = Parsed c))"
    using Cons.prems(1) by simp
  show ?case
  proof (cases "isRulesFile d")
    case False
    from Cons.prems(3) have "walkEntries fs ds m merged = Inl err"
      by (simp only: walkEntries_skip [OF noerr False])
    from Cons.IH [OF good Cons.prems(2) this] show ?thesis
      by (simp only: rulesFiles_Cons False if_False)
  next
    case isf: True
    let ?p = "entryPath d"
    from Cons.prems(1) isf obtain c where c: "readFile fs ?p = Parsed c" by auto
    let ?A = "map Rule.ID (Rules c)" and ?B = "map CorrelationRule.ID (Correlations c)"
      and ?C = "map BaselineRule.ID (Baselines c)"
    let ?own = "map (\<lambda>i. (i, ?p)) (?A @ ?B @ ?C)"
    have occ: "occurrences fs (rulesFiles (d # ds)) = ?own @ occurrences fs (rulesFiles ds)"
      by (simp add: rulesFiles_Cons isf occurrences_Cons parsedIDs_def c allIDs_def)
    let ?res = "case checkIDs InRules ?p ?A m of
                  Inl err \<Rightarrow> Inl err
                | Inr m1 \<Rightarrow>
                    (case checkIDs InCorrelations ?p ?B m1 of
                       Inl err \<Rightarrow> Inl err
                     | Inr m2 \<Rightarrow> checkIDs InBaselines ?p ?C m2)"
    have w: "walkEntries fs (d # ds) m merged
             = (case ?res of Inl err \<Rightarrow> Inl err
                | Inr m3 \<Rightarrow> walkEntries fs ds m3 (Merge merged c))"
      unfolding walkEntries_file [OF noerr isf] by (simp add: c split: sum.splits)
    note chk = checkFile_tracks [OF Cons.prems(2) refl, of ?p ?A ?B ?C]
    show ?thesis
    proof (cases ?res)
      case (Inl e)
      then have "e = err" using Cons.prems(3) unfolding w by simp
      with chk Inl obtain sec i f pre post where
        e: "err = DuplicateFoundInBoth sec i f ?p" and ids: "?A @ ?B @ ?C = pre @ i # post"
        and d: "distinct (map fst (met @ map (\<lambda>j. (j, ?p)) pre))"
        and mem: "(i, f) \<in> set (met @ map (\<lambda>j. (j, ?p)) pre)"
        by auto
      have "?own = map (\<lambda>j. (j, ?p)) pre @ (i, ?p) # map (\<lambda>j. (j, ?p)) post"
        by (simp only: ids map_append list.map)
      then have "occurrences fs (rulesFiles (d # ds))
                 = map (\<lambda>j. (j, ?p)) pre @ (i, ?p) # (map (\<lambda>j. (j, ?p)) post @ occurrences fs (rulesFiles ds))"
        unfolding occ by simp
      with e d mem show ?thesis by blast
    next
      case (Inr m3)
      then have rest: "walkEntries fs ds m3 (Merge merged c) = Inl err"
        using Cons.prems(3) unfolding w by simp
      have t3: "tracks m3 (met @ ?own)" using chk Inr by simp
      from Cons.IH [OF good t3 rest] obtain sec i f1 f2 pre post where
        e: "err = DuplicateFoundInBoth sec i f1 f2"
        and o: "occurrences fs (rulesFiles ds) = pre @ (i, f2) # post"
        and d: "distinct (map fst ((met @ ?own) @ pre))"
        and mem: "(i, f1) \<in> set ((met @ ?own) @ pre)"
        by blast
      have "occurrences fs (rulesFiles (d # ds)) = (?own @ pre) @ (i, f2) # post"
        unfolding occ o by simp
      moreover have "distinct (map fst (met @ (?own @ pre)))" using d by simp
      moreover have "(i, f1) \<in> set (met @ (?own @ pre))" using mem by simp
      ultimately show ?thesis using e by blast
    qed
  qed
qed

text \<open>
  Claim C7, amended. Loading a file whose configuration has the same ID on two items, in
  whichever sections, fails with an error. Loading a directory fails with an error whenever
  the rule files that decode have an ID on two of their items taken together. When, in
  addition, the walk reports no error and every rule file can be read and decoded, the
  error is the duplicate error of the walk. It names the first ID, in the order of the
  walk, that occurs a second time, then the file of its earlier occurrence and then the
  file of the second occurrence: two rule files of the directory that both contain the ID,
  and two different files unless the ID is repeated within that one file.
\<close>

theorem duplicate_IDs_fail_load:
  "(readFile fs path = Parsed config \<and> \<not> distinct (allIDs config)
      \<longrightarrow> (\<exists>err. LoadRulesFile fs path = Inl (InvalidRulesConfiguration err)))
   \<and> (\<not> distinct (concat (map (parsedIDs fs) (rulesFiles (walkDir fs dir))))
      \<longrightarrow> (\<exists>err. LoadRulesDir fs dir = Inl err))
   \<and> (stat fs dir = StatDir
       \<and> (\<forall>d\<in>set (walkDir fs dir).
             \<not> entryErr d \<and> (isRulesFile d \<longrightarrow> (\<exists>c. readFile fs (entryPath d) = Parsed c)))
       \<and> \<not> distinct (concat (map (parsedIDs fs) (rulesFiles (walkDir fs dir))))
      \<longrightarrow> (\<exists>sec i f1 f2 pre post.
             LoadRulesDir fs dir = Inl (DuplicateFoundInBoth sec i f1 f2)
             \<and> occurrences fs (rulesFiles (walkDir fs dir)) = pre @ (i, f2) # post
             \<and> distinct (map fst pre) \<and> (i, f1) \<in> set pre
             \<and> f1 \<in> set (rulesFiles (walkDir fs dir)) \<and> f2 \<in> set (rulesFiles (walkDir fs dir))
             \<and> i \<in> set (parsedIDs fs f1) \<and> i \<in> set (parsedIDs fs f2)
             \<and> (distinct (rulesFiles (walkDir fs dir)) \<and> distinct (parsedIDs fs f2)
                  \<longrightarrow> f1 \<noteq> f2)))"
proof (intro conjI impI)
  assume "readFile fs path = Parsed config \<and> \<not> distinct (allIDs config)"
  then have p: "readFile fs path = Parsed config" and nd: "\<not> distinct (allIDs config)" by auto
  from nd Validate_None_distinct have "Validate config \<noteq> None" by blast
  then show "\<exists>err. LoadRulesFile fs path = Inl (InvalidRulesConfiguration err)"
    by (auto simp: LoadRulesFile_def p)
next
  let ?ds = "walkDir fs dir"
  let ?empty = "\<lparr>Rules = [], Correlations = [], Baselines = []\<rparr>"
  assume nd: "\<not> distinct (concat (map (parsedIDs fs) (rulesFiles ?ds)))"
  have "\<not> (\<exists>merged. walkEntries fs ?ds [] ?empty = Inr merged)"
    using walkEntries_Inr [of fs ?ds "[]" ?empty _ "[]"] nd by auto
  then obtain e where "walkEntries fs ?ds [] ?empty = Inl e"
    by (cases "walkEntries fs ?ds [] ?empty") auto
  then show "\<exists>err. LoadRulesDir fs dir = Inl err"
    by (auto simp: LoadRulesDir_def split: stat_result.splits)
next
  let ?ds = "walkDir fs dir"
  let ?files = "rulesFiles ?ds"
  let ?empty = "\<lparr>Rules = [], Correlations = [], Baselines = []\<rparr>"
  assume a: "stat fs dir = StatDir
       \<and> (\<forall>d\<in>set ?ds. \<not> entryErr d \<and> (isRulesFile d \<longrightarrow> (\<exists>c. readFile fs (entryPath d) = Parsed c)))
       \<and> \<not> distinct (concat (map (parsedIDs fs) (rulesFiles ?ds)))"
  then have st: "stat fs dir = StatDir"
    and good: "\<forall>d\<in>set ?ds. \<not> entryErr d \<and> (isRulesFile d \<longrightarrow> (\<exists>c. readFile fs (entryPath d) = Parsed c))"
    and nd: "\<not> distinct (concat (map (parsedIDs fs) (rulesFiles ?ds)))"
    by auto
  have "\<not> (\<exists>merged. walkEntries fs ?ds [] ?empty = Inr merged)"
    using walkEntries_Inr [of fs ?ds "[]" ?empty _ "[]"] nd by auto
  then obtain err where w: "walkEntries fs ?ds [] ?empty = Inl err"
    by (cases "walkEntries fs ?ds [] ?empty") auto
  have t0: "tracks [] []" by (simp add: tracks_def)
  from walkEntries_first_repeat [OF good t0 w]
  obtain sec i f1 f2 pre post where
    e: "err = DuplicateFoundInBoth sec i f1 f2"
    and o: "occurrences fs ?files = pre @ (i, f2) # post"
    and d: "distinct (map fst pre)" and mem: "(i, f1) \<in> set pre"
    by auto
  have "(i, f1) \<in> set (occurrences fs ?files)" "(i, f2) \<in> set (occurrences fs ?files)"
    using o mem by auto
  then have in1: "f1 \<in> set ?files" "i \<in> set (parsedIDs fs f1)"
    and in2: "f2 \<in> set ?files" "i \<in> set (parsedIDs fs f2)"
    by (simp_all add: occurrences_mem)
  have ne: "f1 \<noteq> f2" if "distinct ?files" "distinct (parsedIDs fs f2)"
  proof
    assume "f1 = f2"
    with mem have "(i, f2) \<in> set pre" by simp
    from repeat_within_file [OF o this that(1) in2(1)] that(2) show False by simp
  qed
  have L: "LoadRulesDir fs dir = Inl (DuplicateFoundInBoth sec i f1 f2)"
    by (simp add: LoadRulesDir_def st w e)
  show "\<exists>sec i f1 f2 pre post.
             LoadRulesDir fs dir = Inl (DuplicateFoundInBoth sec i f1 f2)
             \<and> occurrences fs ?files = pre @ (i, f2) # post
             \<and> distinct (map fst pre) \<and> (i, f1) \<in> set pre
             \<and> f1 \<in> set ?files \<and> f2 \<in> set ?files
             \<and> i \<in> set (parsedIDs fs f1) \<and> i \<in> set (parsedIDs fs f2)
             \<and> (distinct ?files \<and> distinct (parsedIDs fs f2) \<longrightarrow> f1 \<noteq> f2)"
    using L o d mem in1 in2 ne by blast
qed

lemma yaml_ext_examples:
  "ToLower (Ext ''rules/a.yaml'') = ''.yaml''"
  "ToLower (Ext ''rules/b.yaml'') = ''.yaml''"
  "ToLower (Ext ''rules/c.YML'') = ''.yml''"
  by code_simp+

theorem duplicate_IDs_fail_load_witness:
  "LoadRulesDir
       \<lparr>stat = (\<lambda>p. StatDir),
        walkDir = (\<lambda>p. [\<lparr>entryPath = ''rules'', entryIsDir = True, entryErr = False\<rparr>,
                        \<lparr>entryPath = ''rules/a.yaml'', entryIsDir = False, entryErr = False\<rparr>,
                        \<lparr>entryPath = ''rules/b.yaml'', entryIsDir = False, entryErr = False\<rparr>,
                        \<lparr>entryPath = ''rules/c.YML'', entryIsDir = False, entryErr = False\<rparr>]),
        readFile = (\<lambda>p.
          if p = ''rules/a.yaml''
          then Parsed \<lparr>Rules = [\<lparr>Rule.ID = ''SM-001'', Title = ''t'', Description = [],
                                 Expr = ''true'', Severity = ''high'', Tags = [], Enabled = True,
                                 ExtraContext = [], IncludeEvent = False,
                                 IncludeProcessTree = False\<rparr>],
                       Correlations = [], Baselines = []\<rparr>
          else if p = ''rules/b.yaml''
          then Parsed \<lparr>Rules = [],
                       Correlations = [\<lparr>CorrelationRule.ID = ''C-1'', Title = ''t'',
                                        Description = [], Expr = ''true'', Window = 300000000000,
                                        GroupBy = [], CountDistinct = [], Threshold = 3,
                                        Severity = ''high'', Tags = [], Enabled = True\<rparr>],
                       Baselines = []\<rparr>
          else Parsed \<lparr>Rules = [], Correlations = [],
                       Baselines = [\<lparr>BaselineRule.ID = ''B-1'', Title = ''t'', Description = [],
                                     Expr = ''true'', Track = [''path''], Severity = ''low'',
                                     Tags = [], Enabled = True, LearningPeriod = 0\<rparr>,
                                    \<lparr>BaselineRule.ID = ''SM-001'', Title = ''t'', Description = [],
                                     Expr = ''true'', Track = [''path''], Severity = ''low'',
                                     Tags = [], Enabled = True, LearningPeriod = 0\<rparr>]\<rparr>)\<rparr>
       ''rules''
     = Inl (DuplicateFoundInBoth InBaselines ''SM-001'' ''rules/a.yaml'' ''rules/c.YML'')
   \<and> occurrences
       \<lparr>stat = (\<lambda>p. StatDir),
        walkDir = (\<lambda>p. [\<lparr>entryPath = ''rules'', entryIsDir = True, entryErr = False\<rparr>,
                        \<lparr>entryPath = ''rules/a.yaml'', entryIsDir = False, entryErr = False\<rparr>,
                        \<lparr>entryPath = ''rules/b.yaml'', entryIsDir = False, entryErr = False\<rparr>,
                        \<lparr>entryPath = ''rules/c.YML'', entryIsDir = False, entryErr = False\<rparr>]),
        readFile = (\<lambda>p.
          if p = ''rules/a.yaml''
          then Parsed \<lparr>Rules = [\<lparr>Rule.ID = ''SM-001'', Title = ''t'', Description = [],
                                 Expr = ''true'', Severity = ''high'', Tags = [], Enabled = True,
                                 ExtraContext = [], IncludeEvent = False,
                                 IncludeProcessTree = False\<rparr>],
                       Correlations = [], Baselines = []\<rparr>
          else if p = ''rules/b.yaml''
          then Parsed \<lparr>Rules = [],
                       Correlations = [\<lparr>CorrelationRule.ID = ''C-1'', Title = ''t'',
                                        Description = [], Expr = ''true'', Window = 300000000000,
                                        GroupBy = [], CountDistinct = [], Threshold = 3,
                                        Severity = ''high'', Tags = [], Enabled = True\<rparr>],
                       Baselines = []\<rparr>
          else Parsed \<lparr>Rules = [], Correlations = [],
                       Baselines = [\<lparr>BaselineRule.ID = ''B-1'', Title = ''t'', Description = [],
                                     Expr = ''true'', Track = [''path''], Severity = ''low'',
                                     Tags = [], Enabled = True, LearningPeriod = 0\<rparr>,
                                    \<lparr>BaselineRule.ID = ''SM-001'', Title = ''t'', Description = [],
                                     Expr = ''true'', Track = [''path''], Severity = ''low'',
                                     Tags = [], Enabled = True, LearningPeriod = 0\<rparr>]\<rparr>)\<rparr>
       [''rules/a.yaml'', ''rules/b.yaml'', ''rules/c.YML'']
     = [(''SM-001'', ''rules/a.yaml''), (''C-1'', ''rules/b.yaml''), (''B-1'', ''rules/c.YML'')]
       @ (''SM-001'', ''rules/c.YML'') # []
   \<and> ''rules/a.yaml'' \<noteq> ''rules/c.YML''"
proof -
  let ?fs = "\<lparr>stat = (\<lambda>p. StatDir),
        walkDir = (\<lambda>p. [\<lparr>entryPath = ''rules'', entryIsDir = True, entryErr = False\<rparr>,
                        \<lparr>entryPath = ''rules/a.yaml'', entryIsDir = False, entryErr = False\<rparr>,
                        \<lparr>entryPath = ''rules/b.yaml'', entryIsDir = False, entryErr = False\<rparr>,
                        \<lparr>entryPath = ''rules/c.YML'', entryIsDir = False, entryErr = False\<rparr>]),
        readFile = (\<lambda>p.
          if p = ''rules/a.yaml''
          then Parsed \<lparr>Rules = [\<lparr>Rule.ID = ''SM-001'', Title = ''t'', Description = [],
                                 Expr = ''true'', Severity = ''high'', Tags = [], Enabled = True,
                                 ExtraContext = [], IncludeEvent = False,
                                 IncludeProcessTree = False\<rparr>],
                       Correlations = [], Baselines = []\<rparr>
          else if p = ''rules/b.yaml''
          then Parsed \<lparr>Rules = [],
                       Correlations = [\<lparr>CorrelationRule.ID = ''C-1'', Title = ''t'',
                                        Description = [], Expr = ''true'', Window = 300000000000,
                                        GroupBy = [], CountDistinct = [], Threshold = 3,
                                        Severity = ''high'', Tags = [], Enabled = True\<rparr>],
                       Baselines = []\<rparr>
          else Parsed \<lparr>Rules = [], Correlations = [],
                       Baselines = [\<lparr>BaselineRule.ID = ''B-1'', Title = ''t'', Description = [],
                                     Expr = ''true'', Track = [''path''], Severity = ''low'',
                                     Tags = [], Enabled = True, LearningPeriod = 0\<rparr>,
                                    \<lparr>BaselineRule.ID = ''SM-001'', Title = ''t'', Description = [],
                                     Expr = ''true'', Track = [''path''], Severity = ''low'',
                                     Tags = [], Enabled = True, LearningPeriod = 0\<rparr>]\<rparr>)\<rparr>"
  have files: "rulesFiles (walkDir ?fs ''rules'') = [''rules/a.yaml'', ''rules/b.yaml'', ''rules/c.YML'']"
    by (simp add: rulesFiles_def isRulesFile_def yaml_ext_examples)
  have occ: "occurrences ?fs [''rules/a.yaml'', ''rules/b.yaml'', ''rules/c.YML'']
     = [(''SM-001'', ''rules/a.yaml''), (''C-1'', ''rules/b.yaml''), (''B-1'', ''rules/c.YML''),
        (''SM-001'', ''rules/c.YML'')]"
    by (simp add: occurrences_def parsedIDs_def allIDs_def)
  have hyp: "stat ?fs ''rules'' = StatDir
       \<and> (\<forall>d\<in>set (walkDir ?fs ''rules'').
             \<not> entryErr d \<and> (isRulesFile d \<longrightarrow> (\<exists>c. readFile ?fs (entryPath d) = Parsed c)))
       \<and> \<not> distinct (concat (map (parsedIDs ?fs) (rulesFiles (walkDir ?fs ''rules''))))"
    unfolding files by (simp add: parsedIDs_def allIDs_def)
  from duplicate_IDs_fail_load [of ?fs "''rules/a.yaml''" _ "''rules''"] hyp
  obtain sec i f1 f2 pre post where
    L: "LoadRulesDir ?fs ''rules'' = Inl (DuplicateFoundInBoth sec i f1 f2)"
    and o: "occurrences ?fs (rulesFiles (walkDir ?fs ''rules'')) = pre @ (i, f2) # post"
    and d: "distinct (map fst pre)" and mem: "(i, f1) \<in> set pre"
    by blast
  have run: "LoadRulesDir ?fs ''rules''
             = Inl (DuplicateFoundInBoth InBaselines ''SM-001'' ''rules/a.yaml'' ''rules/c.YML'')"
    by (simp add: LoadRulesDir_def isRulesFile_def yaml_ext_examples)
  with L have "sec = InBaselines" "i = ''SM-001''" "f1 = ''rules/a.yaml''" "f2 = ''rules/c.YML''"
    by simp_all
  with L occ show ?thesis by simp
qed

text \<open>
  A directory in which the first and the third rule file both define the rule \<open>SM-001\<close>
  and the second cannot be decoded: loading fails on the second file, and the error does
  not name the two files of the duplicate.
\<close>

theorem LoadRulesDir_parse_error_counterexample:
  "LoadRulesDir
     \<lparr>stat = (\<lambda>p. StatDir),
      walkDir = (\<lambda>p. [\<lparr>entryPath = ''rules/a.yaml'', entryIsDir = False, entryErr = False\<rparr>,
                      \<lparr>entryPath = ''rules/b.yaml'', entryIsDir = False, entryErr = False\<rparr>,
                      \<lparr>entryPath = ''rules/c.YML'', entryIsDir = False, entryErr = False\<rparr>]),
      readFile = (\<lambda>p. if p = ''rules/b.yaml'' then Malformed
                       else Parsed \<lparr>Rules = [\<lparr>Rule.ID = ''SM-001'', Title = ''t'', Description = [],
                                      Expr = ''true'', Severity = ''high'', Tags = [], Enabled = True,
                                      ExtraContext = [], IncludeEvent = False,
                                      IncludeProcessTree = False\<rparr>],
                                    Correlations = [], Baselines = []\<rparr>)\<rparr>
     ''rules''
   = Inl (FailedToParse ''rules/b.yaml'')"
  by (simp add: LoadRulesDir_def yaml_ext_examples)

section \<open>The signal ID is a truncated hash\<close>

lemma length_be_bytes: "length (be_bytes k n) = k"
  by (simp add: be_bytes_def)

lemma length_Sum256: "length (Sum256 m) = 32"
proof -
  obtain a b c d e f g h where
    "foldl compress sha_H0 (chunks16 (be32 (sha_pad m))) = (a, b, c, d, e, f, g, h)"
    by (metis prod_cases3)
  then show ?thesis
    by (simp add: Sum256_def length_be_bytes)
qed

lemma length_hex: "length (hex bs) = 2 * length bs"
  by (induction bs) (simp_all add: hex_def)

text \<open>
  Claim C5. The ID of every generated signal is the hexadecimal rendering of the first 16
  bytes of the SHA-256 hash of \<open>rule_id | ts | host_id | identifier\<close>, where \<open>ts\<close> is the
  timestamp of the signal in RFC3339; for a simple-rule match the identifier is the target
  SHA-256 when there is one and the target path otherwise, for a correlation match it is the
  group key and for a baseline match the pattern. The truncation always has 16 bytes.
\<close>

theorem signal_ID_is_truncated_hash:
  "Signal.ID (FromRuleMatch g now match)
     = hex (take 16 (Sum256 (bytes_of
         (Signal.RuleID (FromRuleMatch g now match) @ ''|''
          @ Format_RFC3339 (TS (FromRuleMatch g now match)) @ ''|''
          @ HostID (FromRuleMatch g now match) @ ''|''
          @ (if TargetSHA256 (Match.Message match) \<noteq> [] then TargetSHA256 (Match.Message match)
             else TargetPath (Match.Message match))))))
   \<and> Signal.ID (FromWindowMatch g now wmatch)
     = hex (take 16 (Sum256 (bytes_of
         (Signal.RuleID (FromWindowMatch g now wmatch) @ ''|''
          @ Format_RFC3339 (TS (FromWindowMatch g now wmatch)) @ ''|''
          @ HostID (FromWindowMatch g now wmatch) @ ''|''
          @ GroupKey wmatch))))
   \<and> Signal.ID (FromBaselineMatch g now bmatch)
     = hex (take 16 (Sum256 (bytes_of
         (Signal.RuleID (FromBaselineMatch g now bmatch) @ ''|''
          @ Format_RFC3339 (TS (FromBaselineMatch g now bmatch)) @ ''|''
          @ HostID (FromBaselineMatch g now bmatch) @ ''|''
          @ Pattern bmatch))))
   \<and> length (take 16 (Sum256 (bytes_of data))) = 16"
  by (simp add: FromRuleMatch_def FromWindowMatch_def FromBaselineMatch_def
        generateSignalID_def signalData_def Let_def length_Sum256)

lemma Format_RFC3339_example:
  "Format_RFC3339 \<lparr>unix_sec = 1700000000, nsec = 500, zone_offset = 0\<rparr> = ''2023-11-14T22:13:20Z''"
  by code_simp

theorem signal_ID_is_truncated_hash_witness:
  "Signal.ID (FromRuleMatch \<lparr>hostID = ''host-1''\<rparr>
      \<lparr>unix_sec = 1700000100, nsec = 0, zone_offset = 3600\<rparr>
      \<lparr>Match.RuleID = ''SM-001'', Title = ''curl'', Severity = ''high'', Tags = [],
       Message = \<lparr>MachineId = ''host-1'', BootSessionUuid = ''boot'',
                  EventTime = Some \<lparr>Seconds = 1700000000, Nanos = 500\<rparr>, ProcessedTime = None,
                  Event = Event_Execution \<lparr>Execution.Target = Some \<lparr>Executable =
                    Some \<lparr>FileInfo.Path = ''/usr/bin/curl'', Hash = Some ''e3b0c442''\<rparr>\<rparr>\<rparr>\<rparr>,
       Timestamp = \<lparr>unix_sec = 1700000000, nsec = 500, zone_offset = 0\<rparr>,
       Rule = None\<rparr>)
   = hex (take 16 (Sum256 (bytes_of ''SM-001|2023-11-14T22:13:20Z|host-1|e3b0c442'')))"
  using signal_ID_is_truncated_hash
    [of "\<lparr>hostID = ''host-1''\<rparr>" "\<lparr>unix_sec = 1700000100, nsec = 0, zone_offset = 3600\<rparr>"
      "\<lparr>Match.RuleID = ''SM-001'', Title = ''curl'', Severity = ''high'', Tags = [],
       Message = \<lparr>MachineId = ''host-1'', BootSessionUuid = ''boot'',
                  EventTime = Some \<lparr>Seconds = 1700000000, Nanos = 500\<rparr>, ProcessedTime = None,
                  Event = Event_Execution \<lparr>Execution.Target = Some \<lparr>Executable =
                    Some \<lparr>FileInfo.Path = ''/usr/bin/curl'', Hash = Some ''e3b0c442''\<rparr>\<rparr>\<rparr>\<rparr>,
       Timestamp = \<lparr>unix_sec = 1700000000, nsec = 500, zone_offset = 0\<rparr>,
       Rule = None\<rparr>"]
  by (simp add: FromRuleMatch_def IsZero_def TargetSHA256_def TargetPath_def Let_def
        generateSignalID_def signalData_def Format_RFC3339_example)

section \<open>Timestamps of the same second give the same ID\<close>

lemma Format_RFC3339_seconds:
  "unix_sec t1 = unix_sec t2 \<Longrightarrow> zone_offset t1 = zone_offset t2
   \<Longrightarrow> Format_RFC3339 t1 = Format_RFC3339 t2"
  by (simp add: Format_RFC3339_def)

text \<open>
  Claim C10. The ID is computed from the timestamp formatted in RFC3339 with seconds as the
  finest unit: two timestamps of the same second (the same Unix second in the same zone,
  whatever their nanoseconds) give the same signal ID for the same rule, host and
  identifier.
\<close>

theorem generateSignalID_second_granularity:
  assumes "unix_sec t1 = unix_sec t2" and "zone_offset t1 = zone_offset t2"
  shows "generateSignalID ruleID t1 host identifier = generateSignalID ruleID t2 host identifier"
  using Format_RFC3339_seconds [OF assms]
  by (simp add: generateSignalID_def signalData_def)

theorem generateSignalID_second_granularity_witness:
  "generateSignalID ''C-1'' \<lparr>unix_sec = 1700000000, nsec = 1, zone_offset = 0\<rparr> ''host-1'' ''_global''
   = generateSignalID ''C-1'' \<lparr>unix_sec = 1700000000, nsec = 999999999, zone_offset = 0\<rparr>
       ''host-1'' ''_global''"
  using generateSignalID_second_granularity
    [of "\<lparr>unix_sec = 1700000000, nsec = 1, zone_offset = 0\<rparr>"
        "\<lparr>unix_sec = 1700000000, nsec = 999999999, zone_offset = 0\<rparr>"
        "''C-1''" "''host-1''" "''_global''"]
  by simp

section \<open>Signal IDs and the clock\<close>

text \<open>
  Claim C3, amended. A simple-rule match or a baseline match whose timestamp is set (not the
  zero time) gets the same signal ID whatever the clock reads when the signal is generated:
  two runs over the same matches with the same host ID produce the same IDs for them.
\<close>

theorem signal_ID_independent_of_clock:
  "(\<not> IsZero (Match.Timestamp match)
      \<longrightarrow> Signal.ID (FromRuleMatch g now1 match) = Signal.ID (FromRuleMatch g now2 match))
   \<and> (\<not> IsZero (BaselineMatch.Timestamp bmatch)
      \<longrightarrow> Signal.ID (FromBaselineMatch g now1 bmatch) = Signal.ID (FromBaselineMatch g now2 bmatch))"
  by (simp add: FromRuleMatch_def FromBaselineMatch_def)

theorem signal_ID_independent_of_clock_witness:
  "Signal.ID (FromRuleMatch \<lparr>hostID = ''host-1''\<rparr>
      \<lparr>unix_sec = 1700000100, nsec = 0, zone_offset = 3600\<rparr>
      \<lparr>Match.RuleID = ''SM-001'', Title = ''curl'', Severity = ''high'', Tags = [],
       Message = \<lparr>MachineId = ''host-1'', BootSessionUuid = ''boot'',
                  EventTime = Some \<lparr>Seconds = 1700000000, Nanos = 500\<rparr>, ProcessedTime = None,
                  Event = Event_Fork\<rparr>,
       Timestamp = \<lparr>unix_sec = 1700000000, nsec = 500, zone_offset = 0\<rparr>,
       Rule = None\<rparr>)
   = Signal.ID (FromRuleMatch \<lparr>hostID = ''host-1''\<rparr>
      \<lparr>unix_sec = 1800000000, nsec = 0, zone_offset = 3600\<rparr>
      \<lparr>Match.RuleID = ''SM-001'', Title = ''curl'', Severity = ''high'', Tags = [],
       Message = \<lparr>MachineId = ''host-1'', BootSessionUuid = ''boot'',
                  EventTime = Some \<lparr>Seconds = 1700000000, Nanos = 500\<rparr>, ProcessedTime = None,
                  Event = Event_Fork\<rparr>,
       Timestamp = \<lparr>unix_sec = 1700000000, nsec = 500, zone_offset = 0\<rparr>,
       Rule = None\<rparr>)
   \<and> Signal.ID (FromBaselineMatch \<lparr>hostID = ''host-1''\<rparr>
      \<lparr>unix_sec = 1700000100, nsec = 0, zone_offset = 3600\<rparr>
      \<lparr>BaselineMatch.RuleID = ''B-1'', Title = ''t'', Severity = ''medium'', Tags = [],
       Description = [], Pattern = ''path=/usr/bin/curl'',
       Message = \<lparr>MachineId = ''host-1'', BootSessionUuid = ''boot'',
                  EventTime = Some \<lparr>Seconds = 1700000000, Nanos = 500\<rparr>, ProcessedTime = None,
                  Event = Event_Fork\<rparr>,
       Timestamp = \<lparr>unix_sec = 1700000000, nsec = 500, zone_offset = 0\<rparr>,
       InLearning = False\<rparr>)
   = Signal.ID (FromBaselineMatch \<lparr>hostID = ''host-1''\<rparr>
      \<lparr>unix_sec = 1800000000, nsec = 0, zone_offset = 3600\<rparr>
      \<lparr>BaselineMatch.RuleID = ''B-1'', Title = ''t'', Severity = ''medium'', Tags = [],
       Description = [], Pattern = ''path=/usr/bin/curl'',
       Message = \<lparr>MachineId = ''host-1'', BootSessionUuid = ''boot'',
                  EventTime = Some \<lparr>Seconds = 1700000000, Nanos = 500\<rparr>, ProcessedTime = None,
                  Event = Event_Fork\<rparr>,
       Timestamp = \<lparr>unix_sec = 1700000000, nsec = 500, zone_offset = 0\<rparr>,
       InLearning = False\<rparr>)"
  using signal_ID_independent_of_clock
    [of "\<lparr>Match.RuleID = ''SM-001'', Title = ''curl'', Severity = ''high'', Tags = [],
       Message = \<lparr>MachineId = ''host-1'', BootSessionUuid = ''boot'',
                  EventTime = Some \<lparr>Seconds = 1700000000, Nanos = 500\<rparr>, ProcessedTime = None,
                  Event = Event_Fork\<rparr>,
       Timestamp = \<lparr>unix_sec = 1700000000, nsec = 500, zone_offset = 0\<rparr>,
       Rule = None\<rparr>"
      "\<lparr>hostID = ''host-1''\<rparr>"
      "\<lparr>unix_sec = 1700000100, nsec = 0, zone_offset = 3600\<rparr>"
      "\<lparr>unix_sec = 1800000000, nsec = 0, zone_offset = 3600\<rparr>"
      "\<lparr>BaselineMatch.RuleID = ''B-1'', Title = ''t'', Severity = ''medium'', Tags = [],
       Description = [], Pattern = ''path=/usr/bin/curl'',
       Message = \<lparr>MachineId = ''host-1'', BootSessionUuid = ''boot'',
                  EventTime = Some \<lparr>Seconds = 1700000000, Nanos = 500\<rparr>, ProcessedTime = None,
                  Event = Event_Fork\<rparr>,
       Timestamp = \<lparr>unix_sec = 1700000000, nsec = 500, zone_offset = 0\<rparr>,
       InLearning = False\<rparr>"]
  by (simp add: IsZero_def)

subsection \<open>SHA-256 of two signal data strings\<close>

text \<open>
  The hash is evaluated block by block: the padded message block, the message schedule in
  three parts of 16 words, the 64 rounds in four parts of 16, and the final addition.
\<close>

lemma replicate_numeral: "replicate (numeral k) x = x # replicate (pred_numeral k) x"
  by (simp add: numeral_eq_Suc)

lemma replicate16: "replicate 16 x = [x, x, x, x, x, x, x, x, x, x, x, x, x, x, x, x]"
  by (simp add: replicate_numeral)

lemma sha_extend_units: "sha_extend ks ws = sha_extend (replicate (length ks) ()) ws"
  by (induction ks arbitrary: ws) simp_all

lemma sha_extend_append: "sha_extend (xs @ ys) ws = sha_extend ys (sha_extend xs ws)"
  by (induction xs arbitrary: ws) simp_all

lemma sha_extend_48:
  "sha_extend (drop 16 sha_K) ws =
     sha_extend (replicate 16 ()) (sha_extend (replicate 16 ()) (sha_extend (replicate 16 ()) ws))"
proof -
  have "length (drop 16 sha_K) = 16 + 16 + 16"
    by (simp add: sha_K_def)
  then have "sha_extend (drop 16 sha_K) ws = sha_extend (replicate (16 + 16 + 16) ()) ws"
    using sha_extend_units [of "drop 16 sha_K" ws] by simp
  also have "\<dots> = sha_extend (replicate 16 () @ replicate 16 () @ replicate 16 ()) ws"
    by (simp only: replicate_add append_assoc)
  finally show ?thesis
    by (simp only: sha_extend_append)
qed


lemma sha_block_a:
  "be32 (sha_pad (bytes_of ''R-1|2023-11-14T22:13:20Z|host-1|/usr/bin/curl'')) =
     [
      1378693500, 842019379, 758198573, 825513010, 842674483, 976367706, 2087219059,
      1949118844, 796226418, 794978670, 795047282, 1820327936, 0, 0, 0, 360]"
  by (simp add: bytes_of_def sha_pad_def be_bytes_def replicate_numeral upt_rec)

lemma sha_sched_a_0:
  "sha_extend (replicate 16 ()) [
      360, 0, 0, 0, 1820327936, 795047282, 794978670, 796226418, 1949118844, 2087219059,
      976367706, 842674483, 825513010, 758198573, 842019379, 1378693500] =
     [
      4287761950, 2682779827, 3715838543, 2314175774, 2644941542, 109598708, 3419387061,
      1119564065, 2642348633, 1064451470, 1760191390, 69725043, 3409420188, 4215178457,
      1977857712, 3997058456, 360, 0, 0, 0, 1820327936, 795047282, 794978670, 796226418,
      1949118844, 2087219059, 976367706, 842674483, 825513010, 758198573, 842019379, 1378693500]"
  by (simp add: replicate16 ssig0_def ssig1_def rotr_def)

lemma sha_sched_a_1:
  "sha_extend (replicate 16 ()) [
      4287761950, 2682779827, 3715838543, 2314175774, 2644941542, 109598708, 3419387061,
      1119564065, 2642348633, 1064451470, 1760191390, 69725043, 3409420188, 4215178457,
      1977857712, 3997058456, 360, 0, 0, 0, 1820327936, 795047282, 794978670, 796226418,
      1949118844, 2087219059, 976367706, 842674483, 825513010, 758198573, 842019379, 1378693500] =
     [
      225255355, 370276695, 971079915, 1639419230, 2107309151, 1747713557, 205541673,
      2877816779, 2642580827, 2948284349, 242191582, 4023917547, 3912707029, 724411053,
      3506906809, 1097985281, 4287761950, 2682779827, 3715838543, 2314175774, 2644941542,
      109598708, 3419387061, 1119564065, 2642348633, 1064451470, 1760191390, 69725043,
      3409420188, 4215178457, 1977857712, 3997058456, 360, 0, 0, 0, 1820327936, 795047282,
      794978670, 796226418, 1949118844, 2087219059, 976367706, 842674483, 825513010, 758198573,
      842019379, 1378693500]"
  by (simp add: replicate16 ssig0_def ssig1_def rotr_def)

lemma sha_sched_a_2:
  "sha_extend (replicate 16 ()) [
      225255355, 370276695, 971079915, 1639419230, 2107309151, 1747713557, 205541673,
      2877816779, 2642580827, 2948284349, 242191582, 4023917547, 3912707029, 724411053,
      3506906809, 1097985281, 4287761950, 2682779827, 3715838543, 2314175774, 2644941542,
      109598708, 3419387061, 1119564065, 2642348633, 1064451470, 1760191390, 69725043,
      3409420188, 4215178457, 1977857712, 3997058456, 360, 0, 0, 0, 1820327936, 795047282,
      794978670, 796226418, 1949118844, 2087219059, 976367706, 842674483, 825513010, 758198573,
      842019379, 1378693500] =
     [
      3844222583, 811304245, 411897890, 3911482303, 3255062769, 1939934730, 533410905,
      364957711, 928878755, 1771658629, 790565142, 4096192229, 2333229684, 3237103323,
      2633336581, 2976107193, 225255355, 370276695, 971079915, 1639419230, 2107309151,
      1747713557, 205541673, 2877816779, 2642580827, 2948284349, 242191582, 4023917547,
      3912707029, 724411053, 3506906809, 1097985281, 4287761950, 2682779827, 3715838543,
      2314175774, 2644941542, 109598708, 3419387061, 1119564065, 2642348633, 1064451470,
      1760191390, 69725043, 3409420188, 4215178457, 1977857712, 3997058456, 360, 0, 0, 0,
      1820327936, 795047282, 794978670, 796226418, 1949118844, 2087219059, 976367706,
      842674483, 825513010, 758198573, 842019379, 1378693500]"
  by (simp add: replicate16 ssig0_def ssig1_def rotr_def)

lemma sha_sched_a:
  "sha_extend (drop 16 sha_K) [
      360, 0, 0, 0, 1820327936, 795047282, 794978670, 796226418, 1949118844, 2087219059,
      976367706, 842674483, 825513010, 758198573, 842019379, 1378693500] =
     [
      3844222583, 811304245, 411897890, 3911482303, 3255062769, 1939934730, 533410905,
      364957711, 928878755, 1771658629, 790565142, 4096192229, 2333229684, 3237103323,
      2633336581, 2976107193, 225255355, 370276695, 971079915, 1639419230, 2107309151,
      1747713557, 205541673, 2877816779, 2642580827, 2948284349, 242191582, 4023917547,
      3912707029, 724411053, 3506906809, 1097985281, 4287761950, 2682779827, 3715838543,
      2314175774, 2644941542, 109598708, 3419387061, 1119564065, 2642348633, 1064451470,
      1760191390, 69725043, 3409420188, 4215178457, 1977857712, 3997058456, 360, 0, 0, 0,
      1820327936, 795047282, 794978670, 796226418, 1949118844, 2087219059, 976367706,
      842674483, 825513010, 758198573, 842019379, 1378693500]"
  by (simp only: sha_extend_48 sha_sched_a_0 sha_sched_a_1 sha_sched_a_2)

lemma sha_rounds_a_0:
  "foldl round1 (1779033703, 3144134277, 1013904242, 2773480762, 1359893119, 2600822924, 528734635, 1541459225) [
      (1116352408, 1378693500), (1899447441, 842019379), (3049323471, 758198573),
      (3921009573, 825513010), (961987163, 842674483), (1508970993, 976367706),
      (2453635748, 2087219059), (2870763221, 1949118844), (3624381080, 796226418),
      (310598401, 794978670), (607225278, 795047282), (1426881987, 1820327936),
      (1925078388, 0), (2162078206, 0), (2614888103, 0), (3248222580, 360)] =
     (1254631097, 2351614131, 4049069634, 2650674039, 3711227230, 1872485402, 2219422972, 3712417121)"
  by (simp add: bsig0_def bsig1_def ch_def maj_def rotr_def)

lemma sha_rounds_a_1:
  "foldl round1 (1254631097, 2351614131, 4049069634, 2650674039, 3711227230, 1872485402, 2219422972, 3712417121) [
      (3835390401, 3997058456), (4022224774, 1977857712), (264347078, 4215178457),
      (604807628, 3409420188), (770255983, 69725043), (1249150122, 1760191390),
      (1555081692, 1064451470), (1996064986, 2642348633), (2554220882, 1119564065),
      (2821834349, 3419387061), (2952996808, 109598708), (3210313671, 2644941542),
      (3336571891, 2314175774), (3584528711, 3715838543), (113926993, 2682779827),
      (338241895, 4287761950)] =
     (1166917644, 3806575889, 97937484, 2393055352, 160957302, 2839671954, 853530730, 3863939085)"
  by (simp add: bsig0_def bsig1_def ch_def maj_def rotr_def)

lemma sha_rounds_a_2:
  "foldl round1 (1166917644, 3806575889, 97937484, 2393055352, 160957302, 2839671954, 853530730, 3863939085) [
      (666307205, 1097985281), (773529912, 3506906809), (1294757372, 724411053),
      (1396182291, 3912707029), (1695183700, 4023917547), (1986661051, 242191582),
      (2177026350, 2948284349), (2456956037, 2642580827), (2730485921, 2877816779),
      (2820302411, 205541673), (3259730800, 1747713557), (3345764771, 2107309151),
      (3516065817, 1639419230), (3600352804, 971079915), (4094571909, 370276695),
      (275423344, 225255355)] =
     (2050167438, 3424147760, 415554903, 3036958579, 1398613268, 1829943140, 3857826930, 1355865038)"
  by (simp add: bsig0_def bsig1_def ch_def maj_def rotr_def)

lemma sha_rounds_a_3:
  "foldl round1 (2050167438, 3424147760, 415554903, 3036958579, 1398613268, 1829943140, 3857826930, 1355865038) [
      (430227734, 2976107193), (506948616, 2633336581), (659060556, 3237103323),
      (883997877, 2333229684), (958139571, 4096192229), (1322822218, 790565142),
      (1537002063, 1771658629), (1747873779, 928878755), (1955562222, 364957711),
      (2024104815, 533410905), (2227730452, 1939934730), (2361852424, 3255062769),
      (2428436474, 3911482303), (2756734187, 411897890), (3204031479, 811304245),
      (3329325298, 3844222583)] =
     (3226876917, 4026285803, 826115284, 3039090918, 2409102077, 2902413610, 2378576458, 695362812)"
  by (simp add: bsig0_def bsig1_def ch_def maj_def rotr_def)

lemma sha_zip_a:
  "zip sha_K [
      1378693500, 842019379, 758198573, 825513010, 842674483, 976367706, 2087219059,
      1949118844, 796226418, 794978670, 795047282, 1820327936, 0, 0, 0, 360, 3997058456,
      1977857712, 4215178457, 3409420188, 69725043, 1760191390, 1064451470, 2642348633,
      1119564065, 3419387061, 109598708, 2644941542, 2314175774, 3715838543, 2682779827,
      4287761950, 1097985281, 3506906809, 724411053, 3912707029, 4023917547, 242191582,
      2948284349, 2642580827, 2877816779, 205541673, 1747713557, 2107309151, 1639419230,
      971079915, 370276695, 225255355, 2976107193, 2633336581, 3237103323, 2333229684,
      4096192229, 790565142, 1771658629, 928878755, 364957711, 533410905, 1939934730,
      3255062769, 3911482303, 411897890, 811304245, 3844222583] =
     [
      (1116352408, 1378693500), (1899447441, 842019379), (3049323471, 758198573),
      (3921009573, 825513010), (961987163, 842674483), (1508970993, 976367706),
      (2453635748, 2087219059), (2870763221, 1949118844), (3624381080, 796226418),
      (310598401, 794978670), (607225278, 795047282), (1426881987, 1820327936),
      (1925078388, 0), (2162078206, 0), (2614888103, 0), (3248222580, 360)]
     @ [
      (3835390401, 3997058456), (4022224774, 1977857712), (264347078, 4215178457),
      (604807628, 3409420188), (770255983, 69725043), (1249150122, 1760191390),
      (1555081692, 1064451470), (1996064986, 2642348633), (2554220882, 1119564065),
      (2821834349, 3419387061), (2952996808, 109598708), (3210313671, 2644941542),
      (3336571891, 2314175774), (3584528711, 3715838543), (113926993, 2682779827),
      (338241895, 4287761950)]
     @ [
      (666307205, 1097985281), (773529912, 3506906809), (1294757372, 724411053),
      (1396182291, 3912707029), (1695183700, 4023917547), (1986661051, 242191582),
      (2177026350, 2948284349), (2456956037, 2642580827), (2730485921, 2877816779),
      (2820302411, 205541673), (3259730800, 1747713557), (3345764771, 2107309151),
      (3516065817, 1639419230), (3600352804, 971079915), (4094571909, 370276695),
      (275423344, 225255355)]
     @ [
      (430227734, 2976107193), (506948616, 2633336581), (659060556, 3237103323),
      (883997877, 2333229684), (958139571, 4096192229), (1322822218, 790565142),
      (1537002063, 1771658629), (1747873779, 928878755), (1955562222, 364957711),
      (2024104815, 533410905), (2227730452, 1939934730), (2361852424, 3255062769),
      (2428436474, 3911482303), (2756734187, 411897890), (3204031479, 811304245),
      (3329325298, 3844222583)]"
  by (simp add: sha_K_def)

lemma sha_rounds_a:
  "foldl round1 sha_H0 (zip sha_K [
      1378693500, 842019379, 758198573, 825513010, 842674483, 976367706, 2087219059,
      1949118844, 796226418, 794978670, 795047282, 1820327936, 0, 0, 0, 360, 3997058456,
      1977857712, 4215178457, 3409420188, 69725043, 1760191390, 1064451470, 2642348633,
      1119564065, 3419387061, 109598708, 2644941542, 2314175774, 3715838543, 2682779827,
      4287761950, 1097985281, 3506906809, 724411053, 3912707029, 4023917547, 242191582,
      2948284349, 2642580827, 2877816779, 205541673, 1747713557, 2107309151, 1639419230,
      971079915, 370276695, 225255355, 2976107193, 2633336581, 3237103323, 2333229684,
      4096192229, 790565142, 1771658629, 928878755, 364957711, 533410905, 1939934730,
      3255062769, 3911482303, 411897890, 811304245, 3844222583]) =
     (3226876917, 4026285803, 826115284, 3039090918, 2409102077, 2902413610, 2378576458, 695362812)"
  by (simp only: sha_zip_a foldl_append sha_H0_def sha_rounds_a_0 sha_rounds_a_1 sha_rounds_a_2 sha_rounds_a_3)

lemma sha_compress_a:
  "compress sha_H0 [
      1378693500, 842019379, 758198573, 825513010, 842674483, 976367706, 2087219059,
      1949118844, 796226418, 794978670, 795047282, 1820327936, 0, 0, 0, 360] =
     (710943324, 2875452784, 1840019526, 1517604384, 3768995196, 1208269238, 2907311093, 2236822037)"
proof -
  have "rev ([
      1378693500, 842019379, 758198573, 825513010, 842674483, 976367706, 2087219059,
      1949118844, 796226418, 794978670, 795047282, 1820327936, 0, 0, 0, 360] :: u32 list) =
        [
        360, 0, 0, 0, 1820327936, 795047282, 794978670, 796226418, 1949118844, 2087219059,
        976367706, 842674483, 825513010, 758198573, 842019379, 1378693500]"
    by simp
  moreover have "rev ([
        3844222583, 811304245, 411897890, 3911482303, 3255062769, 1939934730, 533410905,
        364957711, 928878755, 1771658629, 790565142, 4096192229, 2333229684, 3237103323,
        2633336581, 2976107193, 225255355, 370276695, 971079915, 1639419230, 2107309151,
        1747713557, 205541673, 2877816779, 2642580827, 2948284349, 242191582, 4023917547,
        3912707029, 724411053, 3506906809, 1097985281, 4287761950, 2682779827, 3715838543,
        2314175774, 2644941542, 109598708, 3419387061, 1119564065, 2642348633, 1064451470,
        1760191390, 69725043, 3409420188, 4215178457, 1977857712, 3997058456, 360, 0, 0, 0,
        1820327936, 795047282, 794978670, 796226418, 1949118844, 2087219059, 976367706,
        842674483, 825513010, 758198573, 842019379, 1378693500] :: u32 list) =
        [
        1378693500, 842019379, 758198573, 825513010, 842674483, 976367706, 2087219059,
        1949118844, 796226418, 794978670, 795047282, 1820327936, 0, 0, 0, 360, 3997058456,
        1977857712, 4215178457, 3409420188, 69725043, 1760191390, 1064451470, 2642348633,
        1119564065, 3419387061, 109598708, 2644941542, 2314175774, 3715838543, 2682779827,
        4287761950, 1097985281, 3506906809, 724411053, 3912707029, 4023917547, 242191582,
        2948284349, 2642580827, 2877816779, 205541673, 1747713557, 2107309151, 1639419230,
        971079915, 370276695, 225255355, 2976107193, 2633336581, 3237103323, 2333229684,
        4096192229, 790565142, 1771658629, 928878755, 364957711, 533410905, 1939934730,
        3255062769, 3911482303, 411897890, 811304245, 3844222583]"
    by simp
  ultimately have "compress sha_H0 [
      1378693500, 842019379, 758198573, 825513010, 842674483, 976367706, 2087219059,
      1949118844, 796226418, 794978670, 795047282, 1820327936, 0, 0, 0, 360] =
      add_state sha_H0 (3226876917, 4026285803, 826115284, 3039090918, 2409102077, 2902413610, 2378576458, 695362812)"
    by (simp only: compress_def sha_sched_a sha_rounds_a)
  then show ?thesis
    by (simp add: sha_H0_def)
qed

lemma Sum256_a:
  "hex (take 16 (Sum256 (bytes_of ''R-1|2023-11-14T22:13:20Z|host-1|/usr/bin/curl''))) = ''2a60225cab63ed706dac78465a74ce20''"
proof -
  have "chunks16 [
      1378693500, 842019379, 758198573, 825513010, 842674483, 976367706, 2087219059,
      1949118844, 796226418, 794978670, 795047282, 1820327936, 0, 0, 0, 360] =
        [[
        1378693500, 842019379, 758198573, 825513010, 842674483, 976367706, 2087219059,
        1949118844, 796226418, 794978670, 795047282, 1820327936, 0, 0, 0, 360]]"
    by simp
  then have "foldl compress sha_H0 (chunks16 (be32 (sha_pad (bytes_of ''R-1|2023-11-14T22:13:20Z|host-1|/usr/bin/curl'')))) =
        (710943324, 2875452784, 1840019526, 1517604384, 3768995196, 1208269238, 2907311093, 2236822037)"
    by (simp only: sha_block_a foldl.simps sha_compress_a)
  then show ?thesis
    by (simp add: Sum256_def be_bytes_def hex_def hexdigit_def upt_rec)
qed

lemma sha_block_b:
  "be32 (sha_pad (bytes_of ''R-1|2023-11-14T22:13:21Z|host-1|/usr/bin/curl'')) =
     [
      1378693500, 842019379, 758198573, 825513010, 842674483, 976367962, 2087219059,
      1949118844, 796226418, 794978670, 795047282, 1820327936, 0, 0, 0, 360]"
  by (simp add: bytes_of_def sha_pad_def be_bytes_def replicate_numeral upt_rec)

lemma sha_sched_b_0:
  "sha_extend (replicate 16 ()) [
      360, 0, 0, 0, 1820327936, 795047282, 794978670, 796226418, 1949118844, 2087219059,
      976367962, 842674483, 825513010, 758198573, 842019379, 1378693500] =
     [
      1752678223, 2994944509, 2333752311, 3902319743, 4028765170, 1651140315, 3419458881,
      1347566544, 2661223002, 1063193958, 1760191646, 73919313, 3409420188, 4215178457,
      1977857712, 3997058456, 360, 0, 0, 0, 1820327936, 795047282, 794978670, 796226418,
      1949118844, 2087219059, 976367962, 842674483, 825513010, 758198573, 842019379, 1378693500]"
  by (simp add: replicate16 ssig0_def ssig1_def rotr_def)

lemma sha_sched_b_1:
  "sha_extend (replicate 16 ()) [
      1752678223, 2994944509, 2333752311, 3902319743, 4028765170, 1651140315, 3419458881,
      1347566544, 2661223002, 1063193958, 1760191646, 73919313, 3409420188, 4215178457,
      1977857712, 3997058456, 360, 0, 0, 0, 1820327936, 795047282, 794978670, 796226418,
      1949118844, 2087219059, 976367962, 842674483, 825513010, 758198573, 842019379, 1378693500] =
     [
      3895168275, 2361359011, 2998098791, 634177221, 1796166917, 419109281, 4081008181,
      3861781340, 1652242606, 3289790033, 3704157907, 942594539, 1752929313, 148163756,
      239744450, 972590971, 1752678223, 2994944509, 2333752311, 3902319743, 4028765170,
      1651140315, 3419458881, 1347566544, 2661223002, 1063193958, 1760191646, 73919313,
      3409420188, 4215178457, 1977857712, 3997058456, 360, 0, 0, 0, 1820327936, 795047282,
      794978670, 796226418, 1949118844, 2087219059, 976367962, 842674483, 825513010, 758198573,
      842019379, 1378693500]"
  by (simp add: replicate16 ssig0_def ssig1_def rotr_def)

lemma sha_sched_b_2:
  "sha_extend (replicate 16 ()) [
      3895168275, 2361359011, 2998098791, 634177221, 1796166917, 419109281, 4081008181,
      3861781340, 1652242606, 3289790033, 3704157907, 942594539, 1752929313, 148163756,
      239744450, 972590971, 1752678223, 2994944509, 2333752311, 3902319743, 4028765170,
      1651140315, 3419458881, 1347566544, 2661223002, 1063193958, 1760191646, 73919313,
      3409420188, 4215178457, 1977857712, 3997058456, 360, 0, 0, 0, 1820327936, 795047282,
      794978670, 796226418, 1949118844, 2087219059, 976367962, 842674483, 825513010, 758198573,
      842019379, 1378693500] =
     [
      1890170737, 1915127450, 2079540848, 3068734556, 1108526759, 3769485908, 332340415,
      3368274042, 1481422691, 92383873, 618183920, 2851311907, 1471935583, 3422369615,
      1215759759, 2281944839, 3895168275, 2361359011, 2998098791, 634177221, 1796166917,
      419109281, 4081008181, 3861781340, 1652242606, 3289790033, 3704157907, 942594539,
      1752929313, 148163756, 239744450, 972590971, 1752678223, 2994944509, 2333752311,
      3902319743, 4028765170, 1651140315, 3419458881, 1347566544, 2661223002, 1063193958,
      1760191646, 73919313, 3409420188, 4215178457, 1977857712, 3997058456, 360, 0, 0, 0,
      1820327936, 795047282, 794978670, 796226418, 1949118844, 2087219059, 976367962,
      842674483, 825513010, 758198573, 842019379, 1378693500]"
  by (simp add: replicate16 ssig0_def ssig1_def rotr_def)

lemma sha_sched_b:
  "sha_extend (drop 16 sha_K) [
      360, 0, 0, 0, 1820327936, 795047282, 794978670, 796226418, 1949118844, 2087219059,
      976367962, 842674483, 825513010, 758198573, 842019379, 1378693500] =
     [
      1890170737, 1915127450, 2079540848, 3068734556, 1108526759, 3769485908, 332340415,
      3368274042, 1481422691, 92383873, 618183920, 2851311907, 1471935583, 3422369615,
      1215759759, 2281944839, 3895168275, 2361359011, 2998098791, 634177221, 1796166917,
      419109281, 4081008181, 3861781340, 1652242606, 3289790033, 3704157907, 942594539,
      1752929313, 148163756, 239744450, 972590971, 1752678223, 2994944509, 2333752311,
      3902319743, 4028765170, 1651140315, 3419458881, 1347566544, 2661223002, 1063193958,
      1760191646, 73919313, 3409420188, 4215178457, 1977857712, 3997058456, 360, 0, 0, 0,
      1820327936, 795047282, 794978670, 796226418, 1949118844, 2087219059, 976367962,
      842674483, 825513010, 758198573, 842019379, 1378693500]"
  by (simp only: sha_extend_48 sha_sched_b_0 sha_sched_b_1 sha_sched_b_2)

lemma sha_rounds_b_0:
  "foldl round1 (1779033703, 3144134277, 1013904242, 2773480762, 1359893119, 2600822924, 528734635, 1541459225) [
      (1116352408, 1378693500), (1899447441, 842019379), (3049323471, 758198573),
      (3921009573, 825513010), (961987163, 842674483), (1508970993, 976367962),
      (2453635748, 2087219059), (2870763221, 1949118844), (3624381080, 796226418),
      (310598401, 794978670), (607225278, 795047282), (1426881987, 1820327936),
      (1925078388, 0), (2162078206, 0), (2614888103, 0), (3248222580, 360)] =
     (2096647751, 1271571266, 3574776226, 2722511411, 2015401721, 3406223422, 1407164305, 3249102898)"
  by (simp add: bsig0_def bsig1_def ch_def maj_def rotr_def)

lemma sha_rounds_b_1:
  "foldl round1 (2096647751, 1271571266, 3574776226, 2722511411, 2015401721, 3406223422, 1407164305, 3249102898) [
      (3835390401, 3997058456), (4022224774, 1977857712), (264347078, 4215178457),
      (604807628, 3409420188), (770255983, 73919313), (1249150122, 1760191646),
      (1555081692, 1063193958), (1996064986, 2661223002), (2554220882, 1347566544),
      (2821834349, 3419458881), (2952996808, 1651140315), (3210313671, 4028765170),
      (3336571891, 3902319743), (3584528711, 2333752311), (113926993, 2994944509),
      (338241895, 1752678223)] =
     (3675017428, 3396217029, 3895947987, 860344024, 4053689873, 1251955420, 1158916586, 3616367539)"
  by (simp add: bsig0_def bsig1_def ch_def maj_def rotr_def)

lemma sha_rounds_b_2:
  "foldl round1 (3675017428, 3396217029, 3895947987, 860344024, 4053689873, 1251955420, 1158916586, 3616367539) [
      (666307205, 972590971), (773529912, 239744450), (1294757372, 148163756),
      (1396182291, 1752929313), (1695183700, 942594539), (1986661051, 3704157907),
      (2177026350, 3289790033), (2456956037, 1652242606), (2730485921, 3861781340),
      (2820302411, 4081008181), (3259730800, 419109281), (3345764771, 1796166917),
      (3516065817, 634177221), (3600352804, 2998098791), (4094571909, 2361359011),
      (275423344, 3895168275)] =
     (1167231428, 426879896, 1254498882, 3284445712, 2913330473, 1631874977, 662130790, 3950961728)"
  by (simp add: bsig0_def bsig1_def ch_def maj_def rotr_def)

lemma sha_rounds_b_3:
  "foldl round1 (1167231428, 426879896, 1254498882, 3284445712, 2913330473, 1631874977, 662130790, 3950961728) [
      (430227734, 2281944839), (506948616, 1215759759), (659060556, 3422369615),
      (883997877, 1471935583), (958139571, 2851311907), (1322822218, 618183920),
      (1537002063, 92383873), (1747873779, 1481422691), (1955562222, 3368274042),
      (2024104815, 332340415), (2227730452, 3769485908), (2361852424, 1108526759),
      (2428436474, 3068734556), (2756734187, 2079540848), (3204031479, 1915127450),
      (3329325298, 1890170737)] =
     (3816647485, 3062792331, 953511560, 469969706, 2350447547, 3958679335, 2760808361, 1324344428)"
  by (simp add: bsig0_def bsig1_def ch_def maj_def rotr_def)

lemma sha_zip_b:
  "zip sha_K [
      1378693500, 842019379, 758198573, 825513010, 842674483, 976367962, 2087219059,
      1949118844, 796226418, 794978670, 795047282, 1820327936, 0, 0, 0, 360, 3997058456,
      1977857712, 4215178457, 3409420188, 73919313, 1760191646, 1063193958, 2661223002,
      1347566544, 3419458881, 1651140315, 4028765170, 3902319743, 2333752311, 2994944509,
      1752678223, 972590971, 239744450, 148163756, 1752929313, 942594539, 3704157907,
      3289790033, 1652242606, 3861781340, 4081008181, 419109281, 1796166917, 634177221,
      2998098791, 2361359011, 3895168275, 2281944839, 1215759759, 3422369615, 1471935583,
      2851311907, 618183920, 92383873, 1481422691, 3368274042, 332340415, 3769485908,
      1108526759, 3068734556, 2079540848, 1915127450, 1890170737] =
     [
      (1116352408, 1378693500), (1899447441, 842019379), (3049323471, 758198573),
      (3921009573, 825513010), (961987163, 842674483), (1508970993, 976367962),
      (2453635748, 2087219059), (2870763221, 1949118844), (3624381080, 796226418),
      (310598401, 794978670), (607225278, 795047282), (1426881987, 1820327936),
      (1925078388, 0), (2162078206, 0), (2614888103, 0), (3248222580, 360)]
     @ [
      (3835390401, 3997058456), (4022224774, 1977857712), (264347078, 4215178457),
      (604807628, 3409420188), (770255983, 73919313), (1249150122, 1760191646),
      (1555081692, 1063193958), (1996064986, 2661223002), (2554220882, 1347566544),
      (2821834349, 3419458881), (2952996808, 1651140315), (3210313671, 4028765170),
      (3336571891, 3902319743), (3584528711, 2333752311), (113926993, 2994944509),
      (338241895, 1752678223)]
     @ [
      (666307205, 972590971), (773529912, 239744450), (1294757372, 148163756),
      (1396182291, 1752929313), (1695183700, 942594539), (1986661051, 3704157907),
      (2177026350, 3289790033), (2456956037, 1652242606), (2730485921, 3861781340),
      (2820302411, 4081008181), (3259730800, 419109281), (3345764771, 1796166917),
      (3516065817, 634177221), (3600352804, 2998098791), (4094571909, 2361359011),
      (275423344, 3895168275)]
     @ [
      (430227734, 2281944839), (506948616, 1215759759), (659060556, 3422369615),
      (883997877, 1471935583), (958139571, 2851311907), (1322822218, 618183920),
      (1537002063, 92383873), (1747873779, 1481422691), (1955562222, 3368274042),
      (2024104815, 332340415), (2227730452, 3769485908), (2361852424, 1108526759),
      (2428436474, 3068734556), (2756734187, 2079540848), (3204031479, 1915127450),
      (3329325298, 1890170737)]"
  by (simp add: sha_K_def)

lemma sha_rounds_b:
  "foldl round1 sha_H0 (zip sha_K [
      1378693500, 842019379, 758198573, 825513010, 842674483, 976367962, 2087219059,
      1949118844, 796226418, 794978670, 795047282, 1820327936, 0, 0, 0, 360, 3997058456,
      1977857712, 4215178457, 3409420188, 73919313, 1760191646, 1063193958, 2661223002,
      1347566544, 3419458881, 1651140315, 4028765170, 3902319743, 2333752311, 2994944509,
      1752678223, 972590971, 239744450, 148163756, 1752929313, 942594539, 3704157907,
      3289790033, 1652242606, 3861781340, 4081008181, 419109281, 1796166917, 634177221,
      2998098791, 2361359011, 3895168275, 2281944839, 1215759759, 3422369615, 1471935583,
      2851311907, 618183920, 92383873, 1481422691, 3368274042, 332340415, 3769485908,
      1108526759, 3068734556, 2079540848, 1915127450, 1890170737]) =
     (3816647485, 3062792331, 953511560, 469969706, 2350447547, 3958679335, 2760808361, 1324344428)"
  by (simp only: sha_zip_b foldl_append sha_H0_def sha_rounds_b_0 sha_rounds_b_1 sha_rounds_b_2 sha_rounds_b_3)

lemma sha_compress_b:
  "compress sha_H0 [
      1378693500, 842019379, 758198573, 825513010, 842674483, 976367962, 2087219059,
      1949118844, 796226418, 794978670, 795047282, 1820327936, 0, 0, 0, 360] =
     (1300713892, 1911959312, 1967415802, 3243450468, 3710340666, 2264534963, 3289542996, 2865803653)"
proof -
  have "rev ([
      1378693500, 842019379, 758198573, 825513010, 842674483, 976367962, 2087219059,
      1949118844, 796226418, 794978670, 795047282, 1820327936, 0, 0, 0, 360] :: u32 list) =
        [
        360, 0, 0, 0, 1820327936, 795047282, 794978670, 796226418, 1949118844, 2087219059,
        976367962, 842674483, 825513010, 758198573, 842019379, 1378693500]"
    by simp
  moreover have "rev ([
        1890170737, 1915127450, 2079540848, 3068734556, 1108526759, 3769485908, 332340415,
        3368274042, 1481422691, 92383873, 618183920, 2851311907, 1471935583, 3422369615,
        1215759759, 2281944839, 3895168275, 2361359011, 2998098791, 634177221, 1796166917,
        419109281, 4081008181, 3861781340, 1652242606, 3289790033, 3704157907, 942594539,
        1752929313, 148163756, 239744450, 972590971, 1752678223, 2994944509, 2333752311,
        3902319743, 4028765170, 1651140315, 3419458881, 1347566544, 2661223002, 1063193958,
        1760191646, 73919313, 3409420188, 4215178457, 1977857712, 3997058456, 360, 0, 0, 0,
        1820327936, 795047282, 794978670, 796226418, 1949118844, 2087219059, 976367962,
        842674483, 825513010, 758198573, 842019379, 1378693500] :: u32 list) =
        [
        1378693500, 842019379, 758198573, 825513010, 842674483, 976367962, 2087219059,
        1949118844, 796226418, 794978670, 795047282, 1820327936, 0, 0, 0, 360, 3997058456,
        1977857712, 4215178457, 3409420188, 73919313, 1760191646, 1063193958, 2661223002,
        1347566544, 3419458881, 1651140315, 4028765170, 3902319743, 2333752311, 2994944509,
        1752678223, 972590971, 239744450, 148163756, 1752929313, 942594539, 3704157907,
        3289790033, 1652242606, 3861781340, 4081008181, 419109281, 1796166917, 634177221,
        2998098791, 2361359011, 3895168275, 2281944839, 1215759759, 3422369615, 1471935583,
        2851311907, 618183920, 92383873, 1481422691, 3368274042, 332340415, 3769485908,
        1108526759, 3068734556, 2079540848, 1915127450, 1890170737]"
    by simp
  ultimately have "compress sha_H0 [
      1378693500, 842019379, 758198573, 825513010, 842674483, 976367962, 2087219059,
      1949118844, 796226418, 794978670, 795047282, 1820327936, 0, 0, 0, 360] =
      add_state sha_H0 (3816647485, 3062792331, 953511560, 469969706, 2350447547, 3958679335, 2760808361, 1324344428)"
    by (simp only: compress_def sha_sched_b sha_rounds_b)
  then show ?thesis
    by (simp add: sha_H0_def)
qed

lemma Sum256_b:
  "hex (take 16 (Sum256 (bytes_of ''R-1|2023-11-14T22:13:21Z|host-1|/usr/bin/curl''))) = ''4d8751a471f62f10754461fac1532064''"
proof -
  have "chunks16 [
      1378693500, 842019379, 758198573, 825513010, 842674483, 976367962, 2087219059,
      1949118844, 796226418, 794978670, 795047282, 1820327936, 0, 0, 0, 360] =
        [[
        1378693500, 842019379, 758198573, 825513010, 842674483, 976367962, 2087219059,
        1949118844, 796226418, 794978670, 795047282, 1820327936, 0, 0, 0, 360]]"
    by simp
  then have "foldl compress sha_H0 (chunks16 (be32 (sha_pad (bytes_of ''R-1|2023-11-14T22:13:21Z|host-1|/usr/bin/curl'')))) =
        (1300713892, 1911959312, 1967415802, 3243450468, 3710340666, 2264534963, 3289542996, 2865803653)"
    by (simp only: sha_block_b foldl.simps sha_compress_b)
  then show ?thesis
    by (simp add: Sum256_def be_bytes_def hex_def hexdigit_def upt_rec)
qed

lemma Format_RFC3339_consecutive_seconds:
  "Format_RFC3339 \<lparr>unix_sec = 1700000000, nsec = 0, zone_offset = 0\<rparr> = ''2023-11-14T22:13:20Z''"
  "Format_RFC3339 \<lparr>unix_sec = 1700000001, nsec = 0, zone_offset = 0\<rparr> = ''2023-11-14T22:13:21Z''"
  by code_simp+

text \<open>
  Claim C3 as stated fails. A match without event time carries the zero timestamp, and
  \<open>FromRuleMatch\<close> then takes the clock; \<open>FromWindowMatch\<close> always takes the clock. With
  the clock one second later the same simple-rule match and the same correlation match get
  other IDs.
\<close>

theorem signal_ID_clock_counterexample:
  "Signal.ID (FromRuleMatch \<lparr>hostID = ''host-1''\<rparr>
      \<lparr>unix_sec = 1700000000, nsec = 0, zone_offset = 0\<rparr>
      \<lparr>Match.RuleID = ''R-1'', Title = ''t'', Severity = ''high'', Tags = [],
       Message = \<lparr>MachineId = ''host-1'', BootSessionUuid = ''boot'',
                  EventTime = None, ProcessedTime = None,
                  Event = Event_Execution \<lparr>Execution.Target = Some \<lparr>Executable =
                    Some \<lparr>FileInfo.Path = ''/usr/bin/curl'', Hash = None\<rparr>\<rparr>\<rparr>\<rparr>,
       Timestamp = zeroTime, Rule = None\<rparr>)
   \<noteq> Signal.ID (FromRuleMatch \<lparr>hostID = ''host-1''\<rparr>
      \<lparr>unix_sec = 1700000001, nsec = 0, zone_offset = 0\<rparr>
      \<lparr>Match.RuleID = ''R-1'', Title = ''t'', Severity = ''high'', Tags = [],
       Message = \<lparr>MachineId = ''host-1'', BootSessionUuid = ''boot'',
                  EventTime = None, ProcessedTime = None,
                  Event = Event_Execution \<lparr>Execution.Target = Some \<lparr>Executable =
                    Some \<lparr>FileInfo.Path = ''/usr/bin/curl'', Hash = None\<rparr>\<rparr>\<rparr>\<rparr>,
       Timestamp = zeroTime, Rule = None\<rparr>)
   \<and> Signal.ID (FromWindowMatch \<lparr>hostID = ''host-1''\<rparr>
      \<lparr>unix_sec = 1700000000, nsec = 0, zone_offset = 0\<rparr>
      \<lparr>WindowMatch.RuleID = ''R-1'', Title = ''t'', Severity = ''high'', Tags = [],
       Description = [], Count = 3, Events = [], GroupKey = ''/usr/bin/curl'',
       Rule = \<lparr>CorrelationRule.ID = ''R-1'', Title = ''t'', Description = [], Expr = ''true'',
               Window = 300000000000, GroupBy = [''execution.target.executable.path''],
               CountDistinct = [], Threshold = 3,
               Severity = ''high'', Tags = [], Enabled = True\<rparr>\<rparr>)
   \<noteq> Signal.ID (FromWindowMatch \<lparr>hostID = ''host-1''\<rparr>
      \<lparr>unix_sec = 1700000001, nsec = 0, zone_offset = 0\<rparr>
      \<lparr>WindowMatch.RuleID = ''R-1'', Title = ''t'', Severity = ''high'', Tags = [],
       Description = [], Count = 3, Events = [], GroupKey = ''/usr/bin/curl'',
       Rule = \<lparr>CorrelationRule.ID = ''R-1'', Title = ''t'', Description = [], Expr = ''true'',
               Window = 300000000000, GroupBy = [''execution.target.executable.path''],
               CountDistinct = [], Threshold = 3,
               Severity = ''high'', Tags = [], Enabled = True\<rparr>\<rparr>)"
  by (simp add: FromRuleMatch_def FromWindowMatch_def generateSignalID_def signalData_def
        IsZero_def zeroTime_def TargetSHA256_def TargetPath_def Let_def
        Format_RFC3339_consecutive_seconds Sum256_a Sum256_b)

section \<open>One baseline match per rule and pattern\<close>

lemma IsFirstSeen_fits:
  assumes "healthy db" and "distinct (first_seen db)"
    and "card (insert (rid, p) (set (first_seen db))) \<le> max_entries db"
  shows "\<exists>db'. IsFirstSeen db rid p = Inr ((rid, p) \<notin> set (first_seen db), db')
           \<and> healthy db' \<and> max_entries db' = max_entries db
           \<and> distinct (first_seen db')
           \<and> set (first_seen db') = insert (rid, p) (set (first_seen db))"
proof (cases "(rid, p) \<in> set (first_seen db)")
  case True
  then show ?thesis
    using assms by (auto simp: IsFirstSeen_def distinct_removeAll)
next
  case False
  have "length ((rid, p) # first_seen db) = card (insert (rid, p) (set (first_seen db)))"
    using False assms(2) by (simp add: distinct_card)
  then have "take (max_entries db) ((rid, p) # first_seen db) = (rid, p) # first_seen db"
    using assms(3) by (metis take_all)
  then show ?thesis
    using False assms by (auto simp: IsFirstSeen_def)
qed

lemma matchesFor_append: "matchesFor key (xs @ ys) = matchesFor key xs @ matchesFor key ys"
  by (simp add: matchesFor_def)

lemma baselineRules_fits:
  assumes "healthy db" and "distinct (first_seen db)"
    and "ToMap ext msg = Inr m"
    and "card (set (first_seen db) \<union> set (requests ext rs msg)) \<le> max_entries db"
  shows "\<exists>ms db'. baselineRules ext engine msg i rs db acc = Inr (acc @ ms, db')
           \<and> healthy db' \<and> max_entries db' = max_entries db
           \<and> distinct (first_seen db')
           \<and> set (first_seen db') = set (first_seen db) \<union> set (requests ext rs msg)
           \<and> (\<forall>key. length (matchesFor key ms)
                  = (if key \<in> set (requests ext rs msg) - set (first_seen db) then 1 else 0))"
  using assms
proof (induction rs arbitrary: i db acc)
  case Nil
  then show ?case by (simp add: requests_def matchesFor_def)
next
  case (Cons b rest)
  let ?rule = "CompiledBaseline.Rule b"
  let ?k = "(BaselineRule.ID ?rule, extractPattern (fmt ext) (eventMapOf ext msg) (Track ?rule))"
  show ?case
  proof (cases "CompiledBaseline.Program b msg = BoolVal True")
    case False
    then have skip: "baselineRules ext engine msg i (b # rest) db acc
                     = baselineRules ext engine msg (Suc i) rest db acc"
      by (auto split: eval_result.splits)
    have req: "requests ext (b # rest) msg = requests ext rest msg"
      using False by (simp add: requests_def)
    from Cons.IH [OF Cons.prems(1,2,3), of "Suc i" acc] Cons.prems(4)
    show ?thesis
      unfolding skip req by simp
  next
    case True
    have req: "requests ext (b # rest) msg = ?k # requests ext rest msg"
      using True by (simp add: requests_def)
    have em: "eventMapOf ext msg = BuildActivation msg m"
      by (simp add: eventMapOf_def Cons.prems(3))
    have fits1: "card (insert ?k (set (first_seen db))) \<le> max_entries db"
    proof -
      have "card (insert ?k (set (first_seen db)))
            \<le> card (set (first_seen db) \<union> set (requests ext (b # rest) msg))"
        by (rule card_mono) (auto simp: req)
      with Cons.prems(4) show ?thesis by simp
    qed
    from IsFirstSeen_fits [OF Cons.prems(1,2) fits1]
    obtain db1 where
      fs: "IsFirstSeen db (BaselineRule.ID ?rule)
             (extractPattern (fmt ext) (eventMapOf ext msg) (Track ?rule))
           = Inr (?k \<notin> set (first_seen db), db1)"
      and h1: "healthy db1" and cap1: "max_entries db1 = max_entries db"
      and d1: "distinct (first_seen db1)"
      and s1: "set (first_seen db1) = insert ?k (set (first_seen db))"
      by blast
    define mo where "mo = (if ?k \<notin> set (first_seen db)
        then [mkBaselineMatch ?rule (extractPattern (fmt ext) (eventMapOf ext msg) (Track ?rule)) msg
                (IsInLearningPeriod engine (clock ext i) ?rule)]
        else [])"
    have step: "baselineRules ext engine msg i (b # rest) db acc
                = baselineRules ext engine msg (Suc i) rest db1 (acc @ mo)"
      using True fs by (simp add: Cons.prems(3) em [symmetric] mo_def Let_def)
    have fits2: "card (set (first_seen db1) \<union> set (requests ext rest msg)) \<le> max_entries db1"
      using Cons.prems(4) by (simp add: s1 cap1 req)
    from Cons.IH [OF h1 d1 Cons.prems(3) fits2, of "Suc i" "acc @ mo"]
    obtain ms db' where
      res: "baselineRules ext engine msg (Suc i) rest db1 (acc @ mo) = Inr ((acc @ mo) @ ms, db')"
      and h: "healthy db'" and cap: "max_entries db' = max_entries db1"
      and d: "distinct (first_seen db')"
      and s: "set (first_seen db') = set (first_seen db1) \<union> set (requests ext rest msg)"
      and cnt: "\<forall>key. length (matchesFor key ms)
                  = (if key \<in> set (requests ext rest msg) - set (first_seen db1) then 1 else 0)"
      by blast
    have mo_cnt: "length (matchesFor key mo) = (if key = ?k \<and> ?k \<notin> set (first_seen db) then 1 else 0)" for key
      by (auto simp: mo_def matchesFor_def mkBaselineMatch_def)
    have cnt': "\<forall>key. length (matchesFor key (mo @ ms))
          = (if key \<in> set (requests ext (b # rest) msg) - set (first_seen db) then 1 else 0)"
    proof
      fix key
      have c: "length (matchesFor key ms)
               = (if key \<in> set (requests ext rest msg) - set (first_seen db1) then 1 else 0)"
        using cnt by blast
      show "length (matchesFor key (mo @ ms))
          = (if key \<in> set (requests ext (b # rest) msg) - set (first_seen db) then 1 else 0)"
        unfolding matchesFor_append length_append c mo_cnt [of key] req s1
        by auto
    qed
    have r: "baselineRules ext engine msg i (b # rest) db acc = Inr (acc @ (mo @ ms), db')"
      using step res by simp
    have s': "set (first_seen db') = set (first_seen db) \<union> set (requests ext (b # rest) msg)"
      using s s1 req by auto
    have cap': "max_entries db' = max_entries db"
      using cap cap1 by simp
    show ?thesis
      using r h cap' d s' cnt' by blast
  qed
qed


lemma requests_clock: "requests (ext\<lparr>clock := c\<rparr>) bs msg = requests ext bs msg"
  by (simp add: requests_def eventMapOf_def)

lemma ProcessBaselines_fits:
  assumes "healthy db" and "distinct (first_seen db)"
    and "ToMap ext msg = Inr m"
    and "card (set (first_seen db) \<union> set (requests ext bs msg)) \<le> max_entries db"
  shows "\<exists>ms db'. ProcessBaselines ext engine msg bs db = Inr (ms, db')
           \<and> healthy db' \<and> max_entries db' = max_entries db
           \<and> distinct (first_seen db')
           \<and> set (first_seen db') = set (first_seen db) \<union> set (requests ext bs msg)
           \<and> (\<forall>key. length (matchesFor key ms)
                  = (if key \<in> set (requests ext bs msg) - set (first_seen db) then 1 else 0))"
proof (cases "bs = []")
  case True
  then show ?thesis
    using assms by (simp add: ProcessBaselines_def requests_def matchesFor_def)
next
  case False
  from baselineRules_fits [OF assms, of engine 0 "[]"] False show ?thesis
    by (simp add: ProcessBaselines_def)
qed

lemma processStream_fits:
  assumes "healthy db" and "distinct (first_seen db)"
    and "\<forall>msg\<in>set msgs. \<exists>m. ToMap ext msg = Inr m"
    and "card (set (first_seen db) \<union> set (concat (map (requests ext bs) msgs))) \<le> max_entries db"
  shows "\<exists>ms db'. processStream ext clocks engine bs n msgs db = Inr (ms, db')
           \<and> (\<forall>key. length (matchesFor key ms)
                  = (if key \<in> set (concat (map (requests ext bs) msgs)) - set (first_seen db)
                     then 1 else 0))"
  using assms
proof (induction msgs arbitrary: n db)
  case Nil
  then show ?case by (simp add: matchesFor_def)
next
  case (Cons msg rest)
  let ?ext = "ext\<lparr>clock := clocks n\<rparr>"
  from Cons.prems(3) obtain m where m: "ToMap ?ext msg = Inr m" by auto
  have fits1: "card (set (first_seen db) \<union> set (requests ?ext bs msg)) \<le> max_entries db"
  proof -
    have "card (set (first_seen db) \<union> set (requests ext bs msg))
          \<le> card (set (first_seen db) \<union> set (concat (map (requests ext bs) (msg # rest))))"
      by (rule card_mono) auto
    with Cons.prems(4) show ?thesis by (simp add: requests_clock)
  qed
  from ProcessBaselines_fits [OF Cons.prems(1,2) m fits1, of engine]
  obtain ms1 db1 where
    p: "ProcessBaselines ?ext engine msg bs db = Inr (ms1, db1)"
    and h1: "healthy db1" and cap1: "max_entries db1 = max_entries db"
    and d1: "distinct (first_seen db1)"
    and s1: "set (first_seen db1) = set (first_seen db) \<union> set (requests ext bs msg)"
    and c1: "\<forall>key. length (matchesFor key ms1)
                  = (if key \<in> set (requests ext bs msg) - set (first_seen db) then 1 else 0)"
    unfolding requests_clock by blast
  have good: "\<forall>msg\<in>set rest. \<exists>m. ToMap ext msg = Inr m"
    using Cons.prems(3) by simp
  have fits2: "card (set (first_seen db1) \<union> set (concat (map (requests ext bs) rest))) \<le> max_entries db1"
    using Cons.prems(4) by (simp add: s1 cap1 Un_assoc)
  from Cons.IH [OF h1 d1 good fits2, of "Suc n"]
  obtain ms2 db2 where
    r: "processStream ext clocks engine bs (Suc n) rest db1 = Inr (ms2, db2)"
    and c2: "\<forall>key. length (matchesFor key ms2)
                  = (if key \<in> set (concat (map (requests ext bs) rest)) - set (first_seen db1)
                     then 1 else 0)"
    by blast
  have res: "processStream ext clocks engine bs n (msg # rest) db = Inr (ms1 @ ms2, db2)"
    by (simp add: p r)
  have "\<forall>key. length (matchesFor key (ms1 @ ms2))
          = (if key \<in> set (concat (map (requests ext bs) (msg # rest))) - set (first_seen db)
             then 1 else 0)"
  proof
    fix key
    have a: "length (matchesFor key ms1)
             = (if key \<in> set (requests ext bs msg) - set (first_seen db) then 1 else 0)"
      using c1 by blast
    have b: "length (matchesFor key ms2)
             = (if key \<in> set (concat (map (requests ext bs) rest)) - set (first_seen db1)
                then 1 else 0)"
      using c2 by blast
    show "length (matchesFor key (ms1 @ ms2))
          = (if key \<in> set (concat (map (requests ext bs) (msg # rest))) - set (first_seen db)
             then 1 else 0)"
      unfolding matchesFor_append length_append a b s1
      by auto
  qed
  with res show ?case by blast
qed

text \<open>
  Claim C2, amended. On a healthy store, over a stream of messages whose first-seen keys fit
  together with the keys already stored within \<open>max_entries\<close> (so that the bounded LRU
  never evicts), the processor succeeds and emits exactly one match for every pair of a
  rule ID and a pattern that the stream asks about and the store had not seen before, and
  none for any other pair: events with the same pattern give one match, and an event with a
  pattern not seen before gives exactly one more.
\<close>

theorem baseline_once_per_pattern:
  assumes "healthy db" and "distinct (first_seen db)"
    and "\<forall>msg\<in>set msgs. \<exists>m. ToMap ext msg = Inr m"
    and "card (set (first_seen db) \<union> set (concat (map (requests ext baselines) msgs)))
         \<le> max_entries db"
  shows "\<exists>matches db'.
           processStream ext clocks engine baselines n msgs db = Inr (matches, db')
           \<and> (\<forall>rid p. length (filter (\<lambda>m. BaselineMatch.RuleID m = rid \<and> Pattern m = p) matches)
                 = (if (rid, p) \<in> set (concat (map (requests ext baselines) msgs))
                       \<and> (rid, p) \<notin> set (first_seen db)
                    then 1 else 0))"
proof -
  from processStream_fits [OF assms, of clocks engine n]
  obtain ms db' where
    r: "processStream ext clocks engine baselines n msgs db = Inr (ms, db')"
    and c: "\<forall>key. length (matchesFor key ms)
                  = (if key \<in> set (concat (map (requests ext baselines) msgs)) - set (first_seen db)
                     then 1 else 0)"
    by blast
  have "length (filter (\<lambda>m. BaselineMatch.RuleID m = rid \<and> Pattern m = p) ms)
        = (if (rid, p) \<in> set (concat (map (requests ext baselines) msgs))
              \<and> (rid, p) \<notin> set (first_seen db)
           then 1 else 0)" for rid p
    using c [rule_format, of "(rid, p)"] by (simp add: matchesFor_def)
  with r show ?thesis by blast
qed

theorem baseline_once_per_pattern_witness:
  "\<exists>matches db'.
    processStream
     \<lparr>fmt = (\<lambda>v. []), parseNano = (\<lambda>s. None), parse3339 = (\<lambda>s. None),
      ToMap = (\<lambda>msg. Inr [(''path'', JStr ''/usr/bin/curl''), (''hash'', JStr ''e3b0c442'')]),
      clock = (\<lambda>i. \<lparr>unix_sec = 1700000030, nsec = 0, zone_offset = 0\<rparr>)\<rparr>
     (\<lambda>n i. \<lparr>unix_sec = 1700000030, nsec = 0, zone_offset = 0\<rparr>)
     \<lparr>startTime = \<lparr>unix_sec = 1700000000, nsec = 0, zone_offset = 0\<rparr>\<rparr>
     [\<lparr>CompiledBaseline.Rule =
         \<lparr>BaselineRule.ID = ''B-1'', Title = ''t'', Description = [], Expr = ''true'',
          Track = [''path''], Severity = ''medium'', Tags = [], Enabled = True,
          LearningPeriod = 0\<rparr>,
       Program = (\<lambda>msg. BoolVal True)\<rparr>,
      \<lparr>CompiledBaseline.Rule =
         \<lparr>BaselineRule.ID = ''B-2'', Title = ''t'', Description = [], Expr = ''true'',
          Track = [''hash''], Severity = ''high'', Tags = [], Enabled = True,
          LearningPeriod = 0\<rparr>,
       Program = (\<lambda>msg. BoolVal True)\<rparr>]
     0
     [\<lparr>MachineId = ''host-1'', BootSessionUuid = ''boot'', EventTime = None, ProcessedTime = None,
       Event = Event_Fork\<rparr>,
      \<lparr>MachineId = ''host-1'', BootSessionUuid = ''boot'', EventTime = None, ProcessedTime = None,
       Event = Event_Fork\<rparr>]
     \<lparr>windows = (\<lambda>k. None), first_seen = [], max_entries = 10000, minimal = (\<lambda>e. e),
      healthy = True\<rparr>
    = Inr (matches, db')
    \<and> length (filter (\<lambda>m. BaselineMatch.RuleID m = ''B-1'' \<and> Pattern m = ''path=/usr/bin/curl'')
                matches) = 1"
proof -
  let ?ext = "\<lparr>fmt = (\<lambda>v. []), parseNano = (\<lambda>s. None), parse3339 = (\<lambda>s. None),
      ToMap = (\<lambda>msg. Inr [(''path'', JStr ''/usr/bin/curl''), (''hash'', JStr ''e3b0c442'')]),
      clock = (\<lambda>i. \<lparr>unix_sec = 1700000030, nsec = 0, zone_offset = 0\<rparr>)\<rparr>"
  let ?bs = "[\<lparr>CompiledBaseline.Rule =
         \<lparr>BaselineRule.ID = ''B-1'', Title = ''t'', Description = [], Expr = ''true'',
          Track = [''path''], Severity = ''medium'', Tags = [], Enabled = True,
          LearningPeriod = 0\<rparr>,
       Program = (\<lambda>msg. BoolVal True)\<rparr>,
      \<lparr>CompiledBaseline.Rule =
         \<lparr>BaselineRule.ID = ''B-2'', Title = ''t'', Description = [], Expr = ''true'',
          Track = [''hash''], Severity = ''high'', Tags = [], Enabled = True,
          LearningPeriod = 0\<rparr>,
       Program = (\<lambda>msg. BoolVal True)\<rparr>]"
  let ?msg = "\<lparr>MachineId = ''host-1'', BootSessionUuid = ''boot'', EventTime = None,
       ProcessedTime = None, Event = Event_Fork\<rparr>"
  let ?db = "\<lparr>windows = (\<lambda>k. None), first_seen = [], max_entries = 10000, minimal = (\<lambda>e. e),
      healthy = True\<rparr>"
  have req: "requests ?ext ?bs ?msg = [(''B-1'', ''path=/usr/bin/curl''), (''B-2'', ''hash=e3b0c442'')]"
    by (simp add: requests_def eventMapOf_def extractPattern_def ExtractField_def
          TrimPrefix_def HasPrefix_def toString_def BuildActivation_def Kind_def)
  have fits: "card (set (first_seen ?db) \<union> set (concat (map (requests ?ext ?bs) [?msg, ?msg])))
              \<le> max_entries ?db"
    by (simp add: req card_insert_if)
  from baseline_once_per_pattern
    [of ?db "[?msg, ?msg]" ?ext ?bs
        "\<lambda>n i. \<lparr>unix_sec = 1700000030, nsec = 0, zone_offset = 0\<rparr>"
        "\<lparr>startTime = \<lparr>unix_sec = 1700000000, nsec = 0, zone_offset = 0\<rparr>\<rparr>" 0]
    fits
  obtain matches db' where
    r: "processStream ?ext (\<lambda>n i. \<lparr>unix_sec = 1700000030, nsec = 0, zone_offset = 0\<rparr>)
          \<lparr>startTime = \<lparr>unix_sec = 1700000000, nsec = 0, zone_offset = 0\<rparr>\<rparr> ?bs 0
          [?msg, ?msg] ?db = Inr (matches, db')"
    and c: "\<forall>rid p. length (filter (\<lambda>m. BaselineMatch.RuleID m = rid \<and> Pattern m = p) matches)
                 = (if (rid, p) \<in> set (concat (map (requests ?ext ?bs) [?msg, ?msg]))
                       \<and> (rid, p) \<notin> set (first_seen ?db)
                    then 1 else 0)"
    by auto
  from c [rule_format, of "''B-1''" "''path=/usr/bin/curl''"]
  have "length (filter (\<lambda>m. BaselineMatch.RuleID m = ''B-1'' \<and> Pattern m = ''path=/usr/bin/curl'')
                matches) = 1"
    by (simp add: req)
  with r show ?thesis by blast
qed

text \<open>
  Claim C2 as stated fails when the LRU evicts. With room for one key and two rules, the
  key of the first rule is evicted by the key of the second, and the same message processed
  twice gives two matches for each rule and pattern.
\<close>

theorem baseline_eviction_counterexample:
  "map_sum id (\<lambda>(ms, db'). map (\<lambda>m. (BaselineMatch.RuleID m, Pattern m)) ms)
    (processStream
     \<lparr>fmt = (\<lambda>v. []), parseNano = (\<lambda>s. None), parse3339 = (\<lambda>s. None),
      ToMap = (\<lambda>msg. Inr [(''path'', JStr ''/usr/bin/curl''), (''hash'', JStr ''e3b0c442'')]),
      clock = (\<lambda>i. \<lparr>unix_sec = 1700000030, nsec = 0, zone_offset = 0\<rparr>)\<rparr>
     (\<lambda>n i. \<lparr>unix_sec = 1700000030, nsec = 0, zone_offset = 0\<rparr>)
     \<lparr>startTime = \<lparr>unix_sec = 1700000000, nsec = 0, zone_offset = 0\<rparr>\<rparr>
     [\<lparr>CompiledBaseline.Rule =
         \<lparr>BaselineRule.ID = ''B-1'', Title = ''t'', Description = [], Expr = ''true'',
          Track = [''path''], Severity = ''medium'', Tags = [], Enabled = True,
          LearningPeriod = 0\<rparr>,
       Program = (\<lambda>msg. BoolVal True)\<rparr>,
      \<lparr>CompiledBaseline.Rule =
         \<lparr>BaselineRule.ID = ''B-2'', Title = ''t'', Description = [], Expr = ''true'',
          Track = [''hash''], Severity = ''high'', Tags = [], Enabled = True,
          LearningPeriod = 0\<rparr>,
       Program = (\<lambda>msg. BoolVal True)\<rparr>]
     0
     [\<lparr>MachineId = ''host-1'', BootSessionUuid = ''boot'', EventTime = None, ProcessedTime = None,
       Event = Event_Fork\<rparr>,
      \<lparr>MachineId = ''host-1'', BootSessionUuid = ''boot'', EventTime = None, ProcessedTime = None,
       Event = Event_Fork\<rparr>]
     \<lparr>windows = (\<lambda>k. None), first_seen = [], max_entries = 1, minimal = (\<lambda>e. e),
      healthy = True\<rparr>)
   = Inr [(''B-1'', ''path=/usr/bin/curl''), (''B-2'', ''hash=e3b0c442''),
          (''B-1'', ''path=/usr/bin/curl''), (''B-2'', ''hash=e3b0c442'')]"
  by (simp add: ProcessBaselines_def IsFirstSeen_def extractPattern_def ExtractField_def
        TrimPrefix_def HasPrefix_def toString_def BuildActivation_def Kind_def
        mkBaselineMatch_def IsInLearningPeriod_def Let_def)

end
